theory Spec2Isabelle
  imports Main "HOL-Library.Sublist" "HOL-Library.AList"
begin

section \<open>Text\<close>

text \<open>
  A Python \<^verbatim>\<open>str\<close> is a sequence of Unicode code points, and the program handles text
  beyond Latin-1 (its own return values carry U+2705 and U+274C), so a string is a list of
  code points. \<open>lit\<close> turns an ASCII literal into such a list.
\<close>

type_synonym ustr = "nat list"

definition ch :: "char \<Rightarrow> nat" where
  "ch c = of_char c"

definition lit :: "string \<Rightarrow> ustr" where
  "lit s = map ch s"

text \<open>
  \<^verbatim>\<open>str.isspace\<close> of one code point, which is also the class \<^verbatim>\<open>\s\<close> of a \<^verbatim>\<open>str\<close> pattern:
  U+0009..U+000D, U+001C..U+0020, U+0085, U+00A0, U+1680, U+2000..U+200A, U+2028, U+2029,
  U+202F, U+205F, U+3000.
\<close>

definition isspace :: "nat \<Rightarrow> bool" where
  "isspace c \<longleftrightarrow>
     (9 \<le> c \<and> c \<le> 13) \<or> (28 \<le> c \<and> c \<le> 32) \<or> c = 133 \<or> c = 160 \<or> c = 5760 \<or>
     (8192 \<le> c \<and> c \<le> 8202) \<or> c = 8232 \<or> c = 8233 \<or> c = 8239 \<or> c = 8287 \<or> c = 12288"

text \<open>\<^verbatim>\<open>s.strip()\<close>: leading and trailing whitespace removed.\<close>

definition strip :: "ustr \<Rightarrow> ustr" where
  "strip s = rev (dropWhile isspace (rev (dropWhile isspace s)))"

text \<open>\<^verbatim>\<open>sub in s\<close> on strings: \<open>sub\<close> occurs in \<open>s\<close> as a contiguous block.\<close>

fun str_in :: "ustr \<Rightarrow> ustr \<Rightarrow> bool" where
  "str_in sub [] = (sub = [])"
| "str_in sub (c # cs) = (prefix sub (c # cs) \<or> str_in sub cs)"

text \<open>
  \<^verbatim>\<open>s.split(sep, 1)\<close> for a non-empty separator: one piece when \<open>sep\<close> does not occur,
  otherwise the text before the first occurrence and the text after it.
\<close>

fun split1 :: "ustr \<Rightarrow> ustr \<Rightarrow> ustr list" where
  "split1 sep [] = [[]]"
| "split1 sep (c # cs) =
     (if prefix sep (c # cs) then [[], drop (length sep) (c # cs)]
      else (case split1 sep cs of [] \<Rightarrow> [] | a # rest \<Rightarrow> (c # a) # rest))"

text \<open>\<^verbatim>\<open>str(n)\<close> of an integer: decimal digits, with a minus sign when negative.\<close>

fun digits :: "nat \<Rightarrow> ustr" where
  "digits n = (if n < 10 then [48 + n] else digits (n div 10) @ [48 + n mod 10])"

declare digits.simps [simp del]

definition str_int :: "int \<Rightarrow> ustr" where
  "str_int i = (if i < 0 then ch CHR ''-'' # digits (nat (- i)) else digits (nat i))"

section \<open>Messages and the outbound transcript\<close>

text \<open>A history entry is the dictionary \<^verbatim>\<open>{"role": ..., "content": ...}\<close>.\<close>

record msg =
  role :: ustr
  content :: ustr

text \<open>
  One pass of the loop over \<^verbatim>\<open>history[1:]\<close> in \<^verbatim>\<open>call_llm\<close>: an entry whose role is
  user, assistant or system is appended as it is, a tool entry is appended with the role
  user, and an entry with any other role appends nothing.
\<close>

definition history_entry :: "msg \<Rightarrow> msg list" where
  "history_entry m =
     (if role m \<in> set [lit ''user'', lit ''assistant'', lit ''system'']
      then [\<lparr>role = role m, content = content m\<rparr>]
      else if role m = lit ''tool'' then [\<lparr>role = lit ''user'', content = content m\<rparr>]
      else [])"

text \<open>
  The list \<^verbatim>\<open>messages\<close> that \<^verbatim>\<open>call_llm\<close> builds: the system prompt when it is
  non-empty (Python truthiness of a string), then the entries of \<^verbatim>\<open>history[1:]\<close>.
\<close>

definition messages :: "msg list \<Rightarrow> ustr \<Rightarrow> msg list" where
  "messages history system_prompt =
     (if system_prompt \<noteq> [] then [\<lparr>role = lit ''system'', content = system_prompt\<rparr>] else [])
     @ concat (map history_entry (drop 1 history))"

section \<open>Locating the action\<close>

text \<open>
  The loop looks for the action with
  \<^verbatim>\<open>re.search(r"\[ACTION_START\]\s*(\{.*?\})\s*\[ACTION_END\]", llm_response, re.DOTALL)\<close>
  and reads group 1. The functions below follow the backtracking matcher on this pattern.
  After the literal \<^verbatim>\<open>[ACTION_START]\<close> the greedy \<^verbatim>\<open>\s*\<close> takes the whole run of
  whitespace (giving some of it back cannot help: the next pattern character is a brace,
  which is not whitespace). Under \<^verbatim>\<open>re.DOTALL\<close> the lazy \<^verbatim>\<open>.*?\<close> grows one code point at a
  time, whatever the code point, until the rest of the pattern matches: a closing brace,
  a run of whitespace and the literal \<^verbatim>\<open>[ACTION_END]\<close>. \<^verbatim>\<open>re.search\<close> tries the start
  positions from left to right and returns the first match.
\<close>

definition ACTION_START :: ustr where
  "ACTION_START = lit ''[ACTION_START]''"

definition ACTION_END :: ustr where
  "ACTION_END = lit ''[ACTION_END]''"

text \<open>\<^verbatim>\<open>\s*\[ACTION_END\]\<close> matches at the start of \<open>s\<close>.\<close>

definition closes :: "ustr \<Rightarrow> bool" where
  "closes s = prefix ACTION_END (dropWhile isspace s)"

text \<open>
  \<^verbatim>\<open>.*?\}\s*\[ACTION_END\]\<close> from the start of \<open>s\<close>: the text up to and including the first
  closing brace after which the pattern can finish.
\<close>

fun lazy_body :: "ustr \<Rightarrow> ustr option" where
  "lazy_body [] = None"
| "lazy_body (c # cs) =
     (if c = ch CHR ''}'' \<and> closes cs then Some [c] else map_option ((#) c) (lazy_body cs))"

text \<open>The whole pattern at the start of \<open>s\<close>; the result is group 1.\<close>

definition match_at :: "ustr \<Rightarrow> ustr option" where
  "match_at s =
     (if prefix ACTION_START s then
        (case dropWhile isspace (drop (length ACTION_START) s) of
           [] \<Rightarrow> None
         | c # cs \<Rightarrow> if c = ch CHR ''{'' then map_option ((#) c) (lazy_body cs) else None)
      else None)"

fun re_search :: "ustr \<Rightarrow> ustr option" where
  "re_search [] = None"
| "re_search (c # cs) =
     (case match_at (c # cs) of Some g \<Rightarrow> Some g | None \<Rightarrow> re_search cs)"

section \<open>Values, the interpreter and exceptions\<close>

text \<open>
  The values the program handles besides text come out of \<^verbatim>\<open>json.loads\<close> and
  \<^verbatim>\<open>response.json()\<close>: \<^verbatim>\<open>None\<close>, booleans, integers, floats, strings, lists and
  dictionaries with string keys. A dictionary is an association list in insertion order
  with distinct keys.

  Floating-point numbers are not computed here. The type of floats is the parameter
  \<open>'f\<close>, and what the interpreter does with them enters as a record of functions, together
  with the two texts the interpreter formats from a value that the program never inspects:
  the \<^verbatim>\<open>str\<close> of a list or dictionary and the message of a \<^verbatim>\<open>JSONDecodeError\<close>.
\<close>

datatype 'f json =
    JNull
  | JBool bool
  | JInt int
  | JFloat 'f
  | JStr ustr
  | JArr "'f json list"
  | JObj "(ustr \<times> 'f json) list"

record 'f pyrt =
  float_of_str :: "ustr \<Rightarrow> 'f"
  float_of_int :: "int \<Rightarrow> 'f option"
  float_add :: "'f \<Rightarrow> 'f \<Rightarrow> 'f"
  float_str :: "'f \<Rightarrow> ustr"
  container_str :: "'f json \<Rightarrow> ustr"
  decode_error_text :: "ustr \<Rightarrow> ustr"

text \<open>
  \<open>float_of_str\<close> is \<^verbatim>\<open>float(s)\<close> on a number lexeme or one of \<^verbatim>\<open>NaN\<close>, \<^verbatim>\<open>Infinity\<close>,
  \<^verbatim>\<open>-Infinity\<close>; \<open>float_of_int\<close> is the conversion of an integer operand, \<open>None\<close> when it
  raises \<^verbatim>\<open>OverflowError\<close>; \<open>float_str\<close> and \<open>container_str\<close> are \<^verbatim>\<open>str\<close>;
  \<open>decode_error_text\<close> is \<^verbatim>\<open>str(e)\<close> of the error \<^verbatim>\<open>json.loads\<close> raises on a document.

  The exceptions that occur. Those whose text the program reads (\<^verbatim>\<open>str(e)\<close> in a handler)
  carry that text.
\<close>

datatype exn =
    ValueError ustr
  | JSONDecodeError ustr
  | KeyError ustr
  | IndexError ustr
  | TypeError
  | AttributeError
  | OverflowError

section \<open>Decoding JSON\<close>

text \<open>
  \<^verbatim>\<open>json.loads\<close> on a \<^verbatim>\<open>str\<close>, after the scanner of CPython's \<^verbatim>\<open>json\<close> module with its
  default settings (\<^verbatim>\<open>strict=True\<close>, no hooks). Every function takes the text that is
  left and returns the value read with the text after it, or \<open>None\<close> where the decoder
  raises \<^verbatim>\<open>JSONDecodeError\<close>. Two limits of the interpreter are outside the model: the
  recursion limit on deeply nested documents and the limit on the number of digits of an
  integer literal.
\<close>

definition json_ws :: "nat \<Rightarrow> bool" where
  "json_ws c \<longleftrightarrow> c = 32 \<or> c = 9 \<or> c = 10 \<or> c = 13"

definition skip_ws :: "ustr \<Rightarrow> ustr" where
  "skip_ws s = dropWhile json_ws s"

definition is_digit :: "nat \<Rightarrow> bool" where
  "is_digit c \<longleftrightarrow> 48 \<le> c \<and> c \<le> 57"

definition hex_val :: "nat \<Rightarrow> nat option" where
  "hex_val c =
     (if 48 \<le> c \<and> c \<le> 57 then Some (c - 48)
      else if 97 \<le> c \<and> c \<le> 102 then Some (c - 87)
      else if 65 \<le> c \<and> c \<le> 70 then Some (c - 55)
      else None)"

fun hex4 :: "ustr \<Rightarrow> nat option" where
  "hex4 [a, b, c, d] =
     (case (hex_val a, hex_val b, hex_val c, hex_val d) of
        (Some x, Some y, Some z, Some w) \<Rightarrow> Some (((x * 16 + y) * 16 + z) * 16 + w)
      | _ \<Rightarrow> None)"
| "hex4 _ = None"

text \<open>The character after a backslash: code point 34 is the double quote, 92 the backslash.\<close>

definition escape_char :: "nat \<Rightarrow> nat option" where
  "escape_char e =
     (if e = 34 then Some 34
      else if e = 92 then Some 92
      else if e = ch CHR ''/'' then Some (ch CHR ''/'')
      else if e = ch CHR ''b'' then Some 8
      else if e = ch CHR ''f'' then Some 12
      else if e = ch CHR ''n'' then Some 10
      else if e = ch CHR ''r'' then Some 13
      else if e = ch CHR ''t'' then Some 9
      else None)"

definition emit :: "nat \<Rightarrow> (ustr \<times> ustr) option \<Rightarrow> (ustr \<times> ustr) option" where
  "emit c r = map_option (\<lambda>(t, rest). (c # t, rest)) r"

text \<open>
  \<^verbatim>\<open>scanstring\<close> from just after the opening quote. A \<^verbatim>\<open>\u\<close> escape needs its four
  hexadecimal digits and one more code point after them; a high surrogate followed by a
  second \<^verbatim>\<open>\u\<close> escape (again with a code point after it) that is a low surrogate is
  joined with it. A control character below U+0020 is an error.
\<close>

fun scanstring :: "ustr \<Rightarrow> (ustr \<times> ustr) option" where
  "scanstring [] = None"
| "scanstring (c # cs) =
     (if c = 34 then Some ([], cs)
      else if c = 92 then
        (case cs of
           [] \<Rightarrow> None
         | e # es \<Rightarrow>
             if e = ch CHR ''u'' then
               (if length es < 5 then None
                else case hex4 (take 4 es) of
                  None \<Rightarrow> None
                | Some u1 \<Rightarrow>
                    if 55296 \<le> u1 \<and> u1 \<le> 56319 \<and> 7 \<le> length (drop 4 es)
                       \<and> take 2 (drop 4 es) = [92, ch CHR ''u'']
                    then (case hex4 (take 4 (drop 6 es)) of
                            None \<Rightarrow> None
                          | Some u2 \<Rightarrow>
                              if 56320 \<le> u2 \<and> u2 \<le> 57343
                              then emit (65536 + (u1 - 55296) * 1024 + (u2 - 56320))
                                     (scanstring (drop 10 es))
                              else emit u1 (scanstring (drop 4 es)))
                    else emit u1 (scanstring (drop 4 es)))
             else (case escape_char e of
                     None \<Rightarrow> None
                   | Some x \<Rightarrow> emit x (scanstring es)))
      else if c \<le> 31 then None
      else emit c (scanstring cs))"

text \<open>
  Numbers: \<^verbatim>\<open>-?(0|[1-9][0-9]*)\<close>, then \<^verbatim>\<open>(\.[0-9]+)?\<close>, then \<^verbatim>\<open>([eE][-+]?[0-9]+)?\<close>.
  A number with a fraction or an exponent is a float, any other an integer.
\<close>

definition int_of_digits :: "ustr \<Rightarrow> int" where
  "int_of_digits ds = foldl (\<lambda>a d. 10 * a + (int d - 48)) 0 ds"

definition parse_int :: "ustr \<Rightarrow> int" where
  "parse_int s =
     (case s of [] \<Rightarrow> 0
      | c # cs \<Rightarrow> if c = ch CHR ''-'' then - int_of_digits cs else int_of_digits (c # cs))"

definition scan_integer :: "ustr \<Rightarrow> (ustr \<times> ustr) option" where
  "scan_integer s =
     (let sg = (case s of [] \<Rightarrow> [] | c # cs \<Rightarrow> if c = ch CHR ''-'' then [c] else []);
          s1 = drop (length sg) s
      in case s1 of
           [] \<Rightarrow> None
         | d # ds \<Rightarrow>
             if d = ch CHR ''0'' then Some (sg @ [d], ds)
             else if ch CHR ''1'' \<le> d \<and> d \<le> ch CHR ''9''
             then Some (sg @ d # takeWhile is_digit ds, dropWhile is_digit ds)
             else None)"

definition scan_frac :: "ustr \<Rightarrow> ustr \<times> ustr" where
  "scan_frac s =
     (case s of
        c # d # ds \<Rightarrow>
          if c = ch CHR ''.'' \<and> is_digit d
          then (c # takeWhile is_digit (d # ds), dropWhile is_digit (d # ds))
          else ([], s)
      | _ \<Rightarrow> ([], s))"

definition scan_exp :: "ustr \<Rightarrow> ustr \<times> ustr" where
  "scan_exp s =
     (case s of
        [] \<Rightarrow> ([], s)
      | e # es \<Rightarrow>
          if e = ch CHR ''e'' \<or> e = ch CHR ''E'' then
            (let sg = (case es of [] \<Rightarrow> [] | c # cs \<Rightarrow>
                         if c = ch CHR ''-'' \<or> c = ch CHR ''+'' then [c] else []);
                 ds = drop (length sg) es
             in if takeWhile is_digit ds = [] then ([], s)
                else (e # sg @ takeWhile is_digit ds, dropWhile is_digit ds))
          else ([], s))"

definition match_number :: "'f pyrt \<Rightarrow> ustr \<Rightarrow> ('f json \<times> ustr) option" where
  "match_number rt s =
     (case scan_integer s of
        None \<Rightarrow> None
      | Some (integer, r0) \<Rightarrow>
          (let (frac, r1) = scan_frac r0; (exp, r2) = scan_exp r1
           in if frac \<noteq> [] \<or> exp \<noteq> []
              then Some (JFloat (float_of_str rt (integer @ frac @ exp)), r2)
              else Some (JInt (parse_int integer), r2)))"

definition scan_constant :: "'f pyrt \<Rightarrow> ustr \<Rightarrow> ('f json \<times> ustr) option" where
  "scan_constant rt s =
     (if prefix (lit ''null'') s then Some (JNull, drop 4 s)
      else if prefix (lit ''true'') s then Some (JBool True, drop 4 s)
      else if prefix (lit ''false'') s then Some (JBool False, drop 5 s)
      else if prefix (lit ''NaN'') s then Some (JFloat (float_of_str rt (lit ''NaN'')), drop 3 s)
      else if prefix (lit ''Infinity'') s
      then Some (JFloat (float_of_str rt (lit ''Infinity'')), drop 8 s)
      else if prefix (lit ''-Infinity'') s
      then Some (JFloat (float_of_str rt (lit ''-Infinity'')), drop 9 s)
      else None)"

lemma emit_Some: "emit c r = Some (t, rest) \<Longrightarrow> \<exists>t'. r = Some (t', rest)"
  by (cases r) (auto simp: emit_def)

lemma scanstring_shorter: "scanstring s = Some (t, r) \<Longrightarrow> length r < length s"
proof (induction "length s" arbitrary: s t r rule: less_induct)
  case less
  have IH: "length r' < length s"
    if "scanstring s' = Some (t', r')" "length s' < length s" for s' t' r'
    using less.hyps [OF that(2) that(1)] that(2) by simp
  show ?case
  proof (cases s)
    case Nil
    with less.prems show ?thesis by simp
  next
    case (Cons c cs)
    show ?thesis
      using less.prems unfolding Cons
      by (auto simp: Cons split: if_splits list.splits option.splits
            dest!: emit_Some dest: IH)
  qed
qed

lemma length_skip_ws: "length (skip_ws s) \<le> length s"
  by (simp add: skip_ws_def length_dropWhile_le)

text \<open>
  \<open>parse_value\<close> is \<^verbatim>\<open>scan_once\<close>; \<open>parse_elems\<close> and \<open>parse_members\<close> are the loops over
  the elements of an array and the members of an object, entered after the opening bracket
  and the whitespace behind it, with the non-empty check done. A key met again replaces the
  value stored under it and keeps its place. The loops go on behind a comma only when text
  has been consumed since their last round; \<open>parse_value_shorter\<close> below shows that this
  always is so.
\<close>

function parse_value :: "'f pyrt \<Rightarrow> ustr \<Rightarrow> ('f json \<times> ustr) option"
  and parse_elems :: "'f pyrt \<Rightarrow> 'f json list \<Rightarrow> ustr \<Rightarrow> ('f json \<times> ustr) option"
  and parse_members :: "'f pyrt \<Rightarrow> (ustr \<times> 'f json) list \<Rightarrow> ustr \<Rightarrow> ('f json \<times> ustr) option"
where
  "parse_value rt s =
     (case s of
        [] \<Rightarrow> None
      | c # cs \<Rightarrow>
          if c = 34 then map_option (\<lambda>(t, r). (JStr t, r)) (scanstring cs)
          else if c = ch CHR ''{'' then
            (case skip_ws cs of
               [] \<Rightarrow> parse_members rt [] []
             | d # ds \<Rightarrow> if d = ch CHR ''}'' then Some (JObj [], ds)
                         else parse_members rt [] (d # ds))
          else if c = ch CHR ''['' then
            (case skip_ws cs of
               [] \<Rightarrow> parse_elems rt [] []
             | d # ds \<Rightarrow> if d = ch CHR '']'' then Some (JArr [], ds)
                         else parse_elems rt [] (d # ds))
          else (case scan_constant rt s of
                  Some r \<Rightarrow> Some r
                | None \<Rightarrow> match_number rt s))"
| "parse_elems rt acc s =
     (case parse_value rt s of
        None \<Rightarrow> None
      | Some (v, r) \<Rightarrow>
          (case skip_ws r of
             [] \<Rightarrow> None
           | d # ds \<Rightarrow>
               if d = ch CHR '']'' then Some (JArr (acc @ [v]), ds)
               else if d = ch CHR '','' \<and> length ds < length s
               then parse_elems rt (acc @ [v]) (skip_ws ds)
               else None))"
| "parse_members rt acc s =
     (case s of
        [] \<Rightarrow> None
      | q # s1 \<Rightarrow>
          if q \<noteq> 34 then None
          else (case scanstring s1 of
                  None \<Rightarrow> None
                | Some (key, r) \<Rightarrow>
                    (case skip_ws r of
                       [] \<Rightarrow> None
                     | k # r1 \<Rightarrow>
                         if k \<noteq> ch CHR '':'' then None
                         else (case parse_value rt (skip_ws r1) of
                                 None \<Rightarrow> None
                               | Some (v, r2) \<Rightarrow>
                                   (case skip_ws r2 of
                                      [] \<Rightarrow> None
                                    | d # ds \<Rightarrow>
                                        if d = ch CHR ''}''
                                        then Some (JObj (AList.update key v acc), ds)
                                        else if d = ch CHR '','' \<and> length ds < length s
                                        then parse_members rt (AList.update key v acc) (skip_ws ds)
                                        else None)))))"
  by pat_completeness auto
termination
proof (relation "measure (\<lambda>x. case x of
            Inl (rt, s) \<Rightarrow> 2 * length s
          | Inr (Inl (rt, acc, s)) \<Rightarrow> 2 * length s + 1
          | Inr (Inr (rt, acc, s)) \<Rightarrow> 2 * length s + 1)", goal_cases)
  case 1
  then show ?case by simp
next
  case (2 rt s c cs)
  then show ?case by simp
next
  case (3 rt s c cs d ds)
  then show ?case using length_skip_ws [of cs] by simp
next
  case (4 rt s c cs)
  then show ?case by simp
next
  case (5 rt s c cs d ds)
  then show ?case using length_skip_ws [of cs] by simp
next
  case (6 rt acc s)
  then show ?case by simp
next
  case (7 rt acc s x v r d ds)
  then show ?case using length_skip_ws [of ds] by simp
next
  case (8 rt acc s q s1 x key r k r1)
  then show ?case
    using length_skip_ws [of r1] length_skip_ws [of r] scanstring_shorter [of s1 key r]
    by simp
next
  case (9 rt acc s q s1 x key r k r1 y v r2 d ds)
  then show ?case using length_skip_ws [of ds] by simp
qed

declare parse_value.simps [simp del] parse_elems.simps [simp del] parse_members.simps [simp del]

text \<open>
  \<^verbatim>\<open>json.loads(s)\<close>: a leading U+FEFF is refused; whitespace may surround the one value, and
  nothing else may follow it.
\<close>

definition json_loads :: "'f pyrt \<Rightarrow> ustr \<Rightarrow> exn + 'f json" where
  "json_loads rt s =
     (if prefix [65279] s then Inl (JSONDecodeError (decode_error_text rt s))
      else case parse_value rt (skip_ws s) of
        None \<Rightarrow> Inl (JSONDecodeError (decode_error_text rt s))
      | Some (v, r) \<Rightarrow>
          if skip_ws r = [] then Inr v else Inl (JSONDecodeError (decode_error_text rt s)))"

section \<open>Operations of the interpreter\<close>

text \<open>
  \<^verbatim>\<open>v[key]\<close> for one of the string keys the program uses. A dictionary without the key
  raises \<^verbatim>\<open>KeyError\<close>, whose text is the key between single quotes (its \<^verbatim>\<open>repr\<close>; the
  keys in the program are plain ASCII words). Any other value raises \<^verbatim>\<open>TypeError\<close>.
\<close>

fun getitem_key :: "'f json \<Rightarrow> ustr \<Rightarrow> exn + 'f json" where
  "getitem_key (JObj kv) key =
     (case map_of kv key of
        None \<Rightarrow> Inl (KeyError ([39] @ key @ [39]))
      | Some x \<Rightarrow> Inr x)"
| "getitem_key _ key = Inl TypeError"

text \<open>\<^verbatim>\<open>v[0]\<close>.\<close>

fun getitem_0 :: "'f json \<Rightarrow> exn + 'f json" where
  "getitem_0 (JArr xs) =
     (case xs of [] \<Rightarrow> Inl (IndexError (lit ''list index out of range'')) | x # _ \<Rightarrow> Inr x)"
| "getitem_0 (JStr s) =
     (case s of [] \<Rightarrow> Inl (IndexError (lit ''string index out of range''))
      | c # _ \<Rightarrow> Inr (JStr [c]))"
| "getitem_0 (JObj kv) = Inl (KeyError (lit ''0''))"
| "getitem_0 _ = Inl TypeError"

text \<open>Lists and dictionaries cannot be hashed, so they cannot be looked up in a dictionary.\<close>

fun hashable :: "'f json \<Rightarrow> bool" where
  "hashable (JArr _) = False"
| "hashable (JObj _) = False"
| "hashable _ = True"

text \<open>
  \<^verbatim>\<open>a + b\<close>. Integers and booleans add as integers; a float with a float, an integer or a
  boolean adds as floats, after the conversion of the other operand; two strings and two
  lists are concatenated; every other pair raises \<^verbatim>\<open>TypeError\<close>.
\<close>

fun int_like :: "'f json \<Rightarrow> int option" where
  "int_like (JInt i) = Some i"
| "int_like (JBool b) = Some (if b then 1 else 0)"
| "int_like _ = None"

fun as_float :: "'f pyrt \<Rightarrow> 'f json \<Rightarrow> (exn + 'f) option" where
  "as_float rt (JFloat x) = Some (Inr x)"
| "as_float rt (JInt i) =
     Some (case float_of_int rt i of None \<Rightarrow> Inl OverflowError | Some x \<Rightarrow> Inr x)"
| "as_float rt (JBool b) =
     Some (case float_of_int rt (if b then 1 else 0) of
             None \<Rightarrow> Inl OverflowError | Some x \<Rightarrow> Inr x)"
| "as_float rt _ = None"

definition py_add :: "'f pyrt \<Rightarrow> 'f json \<Rightarrow> 'f json \<Rightarrow> exn + 'f json" where
  "py_add rt a b =
     (case (int_like a, int_like b) of
        (Some x, Some y) \<Rightarrow> Inr (JInt (x + y))
      | _ \<Rightarrow>
        (case (a, b) of
           (JStr s, JStr t) \<Rightarrow> Inr (JStr (s @ t))
         | (JArr xs, JArr ys) \<Rightarrow> Inr (JArr (xs @ ys))
         | _ \<Rightarrow>
           (case (as_float rt a, as_float rt b) of
              (Some (Inl e), Some _) \<Rightarrow> Inl e
            | (Some (Inr x), Some (Inl e)) \<Rightarrow> Inl e
            | (Some (Inr x), Some (Inr y)) \<Rightarrow> Inr (JFloat (float_add rt x y))
            | _ \<Rightarrow> Inl TypeError)))"

text \<open>\<^verbatim>\<open>str(v)\<close>, which is what an f-string puts in place of \<^verbatim>\<open>{v}\<close>.\<close>

fun py_str :: "'f pyrt \<Rightarrow> 'f json \<Rightarrow> ustr" where
  "py_str rt (JStr s) = s"
| "py_str rt (JInt i) = str_int i"
| "py_str rt (JBool b) = (if b then lit ''True'' else lit ''False'')"
| "py_str rt JNull = lit ''None''"
| "py_str rt (JFloat x) = float_str rt x"
| "py_str rt v = container_str rt v"

section \<open>Tools\<close>

text \<open>
  A tool is a Python function with required parameters only: their names, and the body
  on the arguments in the order of the parameters.
\<close>

record 'f callable =
  params :: "ustr list"
  body :: "'f pyrt \<Rightarrow> 'f json list \<Rightarrow> exn + 'f json"

text \<open>\<^verbatim>\<open>def add_numbers(a, b): return a + b\<close>\<close>

definition add_numbers :: "'f callable" where
  "add_numbers =
     \<lparr>params = [lit ''a'', lit ''b''],
      body = (\<lambda>rt xs. case xs of [a, b] \<Rightarrow> py_add rt a b | _ \<Rightarrow> Inl TypeError)\<rparr>"

definition AVAILABLE_TOOLS :: "(ustr \<times> 'f callable) list" where
  "AVAILABLE_TOOLS = [(lit ''add_numbers'', add_numbers)]"

text \<open>
  \<^verbatim>\<open>f(**kwargs)\<close>: \<^verbatim>\<open>kwargs\<close> must be a dictionary, and its keys must be the parameters of
  \<open>f\<close>, none missing and none more; otherwise the call raises \<^verbatim>\<open>TypeError\<close>.
\<close>

definition call_kwargs :: "'f pyrt \<Rightarrow> 'f callable \<Rightarrow> 'f json \<Rightarrow> exn + 'f json" where
  "call_kwargs rt f kwargs =
     (case kwargs of
        JObj kv \<Rightarrow>
          if set (map fst kv) = set (params f)
          then body f rt (map (\<lambda>p. the (map_of kv p)) (params f))
          else Inl TypeError
      | _ \<Rightarrow> Inl TypeError)"

text \<open>
  \<^verbatim>\<open>tool_name not in AVAILABLE_TOOLS\<close> followed by \<^verbatim>\<open>AVAILABLE_TOOLS[tool_name]\<close>: the test
  raises \<^verbatim>\<open>TypeError\<close> on a name that cannot be hashed; a name that is not a string is never
  a key of the registry.
\<close>

definition tool_lookup :: "'f json \<Rightarrow> exn + 'f callable option" where
  "tool_lookup tool_name =
     (if \<not> hashable tool_name then Inl TypeError
      else Inr (case tool_name of JStr n \<Rightarrow> map_of AVAILABLE_TOOLS n | _ \<Rightarrow> None))"

text \<open>
  The body of the \<^verbatim>\<open>try\<close> block of \<^verbatim>\<open>run_agent_loop\<close> up to the call of the tool: decode the
  action, read its two keys, look the tool up (raising \<^verbatim>\<open>ValueError\<close> when it is not
  registered), call it with the arguments as keywords.
\<close>

definition execute_action :: "'f pyrt \<Rightarrow> ustr \<Rightarrow> exn + 'f json" where
  "execute_action rt action_json_str =
     (case json_loads rt action_json_str of
        Inl e \<Rightarrow> Inl e
      | Inr action_dict \<Rightarrow>
     (case getitem_key action_dict (lit ''tool'') of
        Inl e \<Rightarrow> Inl e
      | Inr tool_name \<Rightarrow>
     (case getitem_key action_dict (lit ''args'') of
        Inl e \<Rightarrow> Inl e
      | Inr tool_args \<Rightarrow>
     (case tool_lookup tool_name of
        Inl e \<Rightarrow> Inl e
      | Inr None \<Rightarrow>
          Inl (ValueError (lit ''Tool '' @ py_str rt tool_name @ lit '' not registered.''))
      | Inr (Some tool_function) \<Rightarrow> call_kwargs rt tool_function tool_args))))"

text \<open>
  \<^verbatim>\<open>except (json.JSONDecodeError, KeyError, ValueError) as e\<close>: the text \<^verbatim>\<open>str(e)\<close> when the
  clause catches the exception.
\<close>

fun caught_in_loop :: "exn \<Rightarrow> ustr option" where
  "caught_in_loop (JSONDecodeError m) = Some m"
| "caught_in_loop (KeyError m) = Some m"
| "caught_in_loop (ValueError m) = Some m"
| "caught_in_loop _ = None"

section \<open>The model client\<close>

text \<open>
  \<^verbatim>\<open>DEEPSEEK_CONFIG\<close>, as far as it comes from the environment: the key may be absent.
  The request is what \<^verbatim>\<open>requests.post\<close> is given: the address, the authorization header
  and the payload (without its floating-point temperature).
\<close>

record config =
  api_key :: "ustr option"
  base_url :: ustr
  model :: ustr

record request =
  url :: ustr
  authorization :: ustr
  payload_model :: ustr
  payload_messages :: "msg list"
  payload_max_tokens :: int
  payload_stream :: bool

text \<open>
  What one attempt gives: \<^verbatim>\<open>requests.post\<close>, \<^verbatim>\<open>raise_for_status\<close> or \<^verbatim>\<open>response.json\<close>
  raises a \<^verbatim>\<open>RequestException\<close> with its text, or the decoded body of the response arrives.
  The remote side is a function from the number of requests sent before and the request.
  The state of the world that the program changes is the list of requests it has sent and
  the list of times it has slept, both in order.
\<close>

datatype 'f attempt = RequestException ustr | Response "'f json"

type_synonym 'f endpoint = "nat \<Rightarrow> request \<Rightarrow> 'f attempt"

record world =
  requests :: "request list"
  sleeps :: "nat list"

text \<open>\<^verbatim>\<open>result["choices"][0]["message"]["content"].strip()\<close>\<close>

definition reply_content :: "'f json \<Rightarrow> exn + ustr" where
  "reply_content result =
     (case getitem_key result (lit ''choices'') of
        Inl e \<Rightarrow> Inl e
      | Inr choices \<Rightarrow>
     (case getitem_0 choices of
        Inl e \<Rightarrow> Inl e
      | Inr choice \<Rightarrow>
     (case getitem_key choice (lit ''message'') of
        Inl e \<Rightarrow> Inl e
      | Inr message \<Rightarrow>
     (case getitem_key message (lit ''content'') of
        Inl e \<Rightarrow> Inl e
      | Inr llm_response \<Rightarrow>
          (case llm_response of JStr t \<Rightarrow> Inr (strip t) | _ \<Rightarrow> Inl AttributeError)))))"

text \<open>\<^verbatim>\<open>except (KeyError, IndexError) as e\<close> in \<^verbatim>\<open>call_llm\<close>.\<close>

fun caught_in_call :: "exn \<Rightarrow> ustr option" where
  "caught_in_call (KeyError m) = Some m"
| "caught_in_call (IndexError m) = Some m"
| "caught_in_call _ = None"

text \<open>
  \<^verbatim>\<open>for attempt in range(max_retries)\<close>: \<open>attempt\<close> is the loop variable and \<open>remaining\<close>
  the number of rounds left, this one included.
\<close>

fun retry_loop ::
  "'f endpoint \<Rightarrow> request \<Rightarrow> int \<Rightarrow> nat \<Rightarrow> nat \<Rightarrow> world \<Rightarrow> (exn + ustr) \<times> world" where
  "retry_loop endpoint req max_retries attempt 0 w =
     (Inr (lit ''Error: Maximum retry attempts exceeded.''), w)"
| "retry_loop endpoint req max_retries attempt (Suc remaining) w =
     (let w1 = w\<lparr>requests := requests w @ [req]\<rparr> in
      case endpoint (length (requests w)) req of
        RequestException e \<Rightarrow>
          (let error_msg = lit ''API request failed (attempt '' @ str_int (int attempt + 1)
                 @ lit ''/'' @ str_int max_retries @ lit ''): '' @ e
           in if int attempt = max_retries - 1 then (Inr (lit ''Error: '' @ error_msg), w1)
              else retry_loop endpoint req max_retries (Suc attempt) remaining
                     (w1\<lparr>sleeps := sleeps w1 @ [2 ^ attempt]\<rparr>))
      | Response result \<Rightarrow>
          (case reply_content result of
             Inr llm_response \<Rightarrow> (Inr llm_response, w1)
           | Inl e \<Rightarrow>
               (case caught_in_call e of
                  Some m \<Rightarrow> (Inr (lit ''Error: '' @ lit ''Failed to parse API response: '' @ m), w1)
                | None \<Rightarrow> (Inl e, w1))))"

text \<open>
  The request that \<^verbatim>\<open>call_llm\<close> prepares before its loop: the address, the header with
  the key, and the payload with the messages.
\<close>

definition request_for :: "config \<Rightarrow> msg list \<Rightarrow> ustr \<Rightarrow> request" where
  "request_for cfg history system_prompt =
     \<lparr>url = base_url cfg @ lit ''/chat/completions'',
      authorization = lit ''Bearer '' @ the (api_key cfg),
      payload_model = model cfg,
      payload_messages = messages history system_prompt,
      payload_max_tokens = 2000,
      payload_stream = False\<rparr>"

text \<open>
  \<^verbatim>\<open>call_llm\<close>: without a key (absent or empty) it raises \<^verbatim>\<open>ValueError\<close> before anything
  is sent.
\<close>

definition call_llm ::
  "config \<Rightarrow> 'f endpoint \<Rightarrow> msg list \<Rightarrow> ustr \<Rightarrow> int \<Rightarrow> world \<Rightarrow> (exn + ustr) \<times> world" where
  "call_llm cfg endpoint history system_prompt max_retries w =
     (if api_key cfg = None \<or> api_key cfg = Some []
      then (Inl (ValueError (lit
        ''DeepSeek API key not found. Please set DEEPSEEK_API_KEY environment variable.'')), w)
      else retry_loop endpoint (request_for cfg history system_prompt)
             max_retries 0 (nat max_retries) w)"

section \<open>The agent loop\<close>

text \<open>
  One round of the loop of \<^verbatim>\<open>run_agent_loop\<close> either goes on to the next round, returns
  the result of the run, or lets an exception out. The three texts a run can return begin
  with a newline and U+2705, or with U+274C.
\<close>

datatype step = Continue | Return ustr | Raise exn

definition finished_text :: "ustr \<Rightarrow> ustr" where
  "finished_text final_answer =
     [10, 9989] @ lit '' Agent Finished! Final Answer: '' @ final_answer"

definition failed_text :: ustr where
  "failed_text = [10060] @ lit '' Agent failed to produce a valid action or final answer.''"

definition max_steps_text :: ustr where
  "max_steps_text = [10060] @ lit '' Max steps reached without a final answer.''"

text \<open>The defaults of the parameters \<^verbatim>\<open>max_retries\<close> and \<^verbatim>\<open>max_steps\<close>.\<close>

definition default_max_retries :: int where
  "default_max_retries = 3"

definition default_max_steps :: int where
  "default_max_steps = 5"

definition loop_body ::
  "'f pyrt \<Rightarrow> config \<Rightarrow> 'f endpoint \<Rightarrow> ustr \<Rightarrow> msg list \<Rightarrow> world \<Rightarrow> step \<times> msg list \<times> world" where
  "loop_body rt cfg endpoint system_prompt history w =
     (case call_llm cfg endpoint history system_prompt default_max_retries w of
        (Inl e, w') \<Rightarrow> (Raise e, history, w')
      | (Inr llm_response, w') \<Rightarrow>
          if str_in (lit ''Final Answer:'') llm_response then
            (case split1 (lit ''Final Answer:'') llm_response of
               _ # final_answer # _ \<Rightarrow> (Return (finished_text (strip final_answer)), history, w')
             | _ \<Rightarrow> (Raise (IndexError (lit ''list index out of range'')), history, w'))
          else
            (case re_search llm_response of
               Some action_json_str \<Rightarrow>
                 (let history1 = history @ [\<lparr>role = lit ''assistant'', content = llm_response\<rparr>]
                  in case execute_action rt action_json_str of
                       Inr observation_result \<Rightarrow>
                         (Continue,
                          history1 @ [\<lparr>role = lit ''tool'',
                            content = lit ''Observation: '' @ py_str rt observation_result\<rparr>], w')
                     | Inl e \<Rightarrow>
                         (case caught_in_loop e of
                            Some m \<Rightarrow>
                              (Continue,
                               history1 @ [\<lparr>role = lit ''tool'',
                                 content = lit ''Observation: '' @ lit ''Tool Execution Error: '' @ m\<rparr>],
                               w')
                          | None \<Rightarrow> (Raise e, history1, w')))
             | None \<Rightarrow> (Return failed_text, history, w')))"

text \<open>\<^verbatim>\<open>for step in range(max_steps)\<close>, with the number of rounds left.\<close>

fun agent_steps ::
  "'f pyrt \<Rightarrow> config \<Rightarrow> 'f endpoint \<Rightarrow> ustr \<Rightarrow> nat \<Rightarrow> msg list \<Rightarrow> world
     \<Rightarrow> (exn + ustr) \<times> msg list \<times> world" where
  "agent_steps rt cfg endpoint system_prompt 0 history w = (Inr max_steps_text, history, w)"
| "agent_steps rt cfg endpoint system_prompt (Suc n) history w =
     (case loop_body rt cfg endpoint system_prompt history w of
        (Continue, history', w') \<Rightarrow> agent_steps rt cfg endpoint system_prompt n history' w'
      | (Return result, history', w') \<Rightarrow> (Inr result, history', w')
      | (Raise e, history', w') \<Rightarrow> (Inl e, history', w'))"

text \<open>
  \<^verbatim>\<open>run_agent_loop\<close>: the result of the run or the exception that left it, with the history
  and the world at that moment.
\<close>

definition run_agent_loop ::
  "'f pyrt \<Rightarrow> config \<Rightarrow> 'f endpoint \<Rightarrow> ustr \<Rightarrow> ustr \<Rightarrow> int \<Rightarrow> world
     \<Rightarrow> (exn + ustr) \<times> msg list \<times> world" where
  "run_agent_loop rt cfg endpoint initial_user_prompt system_prompt max_steps w =
     agent_steps rt cfg endpoint system_prompt (nat max_steps)
       [\<lparr>role = lit ''system'', content = system_prompt\<rparr>,
        \<lparr>role = lit ''user'', content = initial_user_prompt\<rparr>] w"

section \<open>Instances for evaluation\<close>

text \<open>
  Concrete surroundings on which the model is run below: an interpreter whose floats are
  trivial, a configuration with a key, a well-formed body of a chat completion with a given
  content, a remote side that always answers with it, one that always times out, and a
  world in which nothing has happened yet.
\<close>

definition sample_rt :: "unit pyrt" where
  "sample_rt =
     \<lparr>float_of_str = (\<lambda>s. ()), float_of_int = (\<lambda>i. Some ()), float_add = (\<lambda>x y. ()),
      float_str = (\<lambda>x. lit ''0.0''), container_str = (\<lambda>v. lit ''[]''),
      decode_error_text = (\<lambda>s. lit ''Expecting value'')\<rparr>"

definition sample_cfg :: config where
  "sample_cfg =
     \<lparr>api_key = Some (lit ''sk-test''), base_url = lit ''https://api.deepseek.com/v1'',
      model = lit ''deepseek-chat''\<rparr>"

definition chat_reply :: "ustr \<Rightarrow> 'f json" where
  "chat_reply t =
     JObj [(lit ''choices'', JArr [JObj [(lit ''message'', JObj [(lit ''content'', JStr t)])]])]"

definition replies :: "ustr \<Rightarrow> 'f endpoint" where
  "replies t = (\<lambda>n req. Response (chat_reply t))"

definition times_out :: "'f endpoint" where
  "times_out = (\<lambda>n req. RequestException (lit ''timed out''))"

definition fresh :: world where
  "fresh = \<lparr>requests = [], sleeps = []\<rparr>"

text \<open>
  The action of the example in the system prompt of the program, and a model text that
  consists of it between the two markers.
\<close>

definition example_payload :: ustr where
  "example_payload = lit ''{\"tool\": \"add_numbers\", \"args\": {\"a\": 123, \"b\": 456}}''"

definition example_response :: ustr where
  "example_response = ACTION_START @ example_payload @ ACTION_END"

text \<open>
  Further model texts: an action that leaves out one argument of the tool, an action
  that names a tool outside the registry, an action without its arguments key, and a text
  that holds both an action and a final answer. The last remote side times out on the
  first request and then answers with a body that lacks every expected field.
\<close>

definition missing_argument_payload :: ustr where
  "missing_argument_payload = lit ''{\"tool\": \"add_numbers\", \"args\": {\"a\": 1}}''"

definition missing_argument_response :: ustr where
  "missing_argument_response = ACTION_START @ missing_argument_payload @ ACTION_END"

definition unregistered_payload :: ustr where
  "unregistered_payload = lit ''{\"tool\": \"multiply\", \"args\": {\"a\": 2, \"b\": 3}}''"

definition unregistered_response :: ustr where
  "unregistered_response = ACTION_START @ unregistered_payload @ ACTION_END"





section \<open>Properties of text operations\<close>

text \<open>
  \<open>str_in\<close> is containment as a contiguous block, and \<open>split1\<close> cuts at the first
  occurrence of the separator: the part before it, extended by all but the last code point
  of the separator, does not contain the separator.
\<close>

lemma str_in_iff: "str_in sub s \<longleftrightarrow> (\<exists>pre post. s = pre @ sub @ post)"
proof (induction s)
  case Nil
  then show ?case by auto
next
  case (Cons c cs)
  show ?case
  proof
    assume "str_in sub (c # cs)"
    then consider "prefix sub (c # cs)" | "str_in sub cs" by auto
    then show "\<exists>pre post. c # cs = pre @ sub @ post"
    proof cases
      case 1
      then obtain post where "c # cs = sub @ post" by (auto simp: prefix_def)
      then have "c # cs = [] @ sub @ post" by simp
      then show ?thesis by blast
    next
      case 2
      with Cons.IH obtain pre post where "cs = pre @ sub @ post" by blast
      then have "c # cs = (c # pre) @ sub @ post" by simp
      then show ?thesis by blast
    qed
  next
    assume "\<exists>pre post. c # cs = pre @ sub @ post"
    then obtain pre post where eq: "c # cs = pre @ sub @ post" by blast
    show "str_in sub (c # cs)"
    proof (cases pre)
      case Nil
      with eq have "prefix sub (c # cs)" by (auto simp: prefix_def)
      then show ?thesis by simp
    next
      case (Cons p pre')
      with eq have "cs = pre' @ sub @ post" by simp
      with Cons.IH have "str_in sub cs" by blast
      then show ?thesis by simp
    qed
  qed
qed


lemma split1_first:
  assumes "sep \<noteq> []" "str_in sep s"
  shows "\<exists>pre post. split1 sep s = [pre, post] \<and> s = pre @ sep @ post
           \<and> \<not> str_in sep (pre @ butlast sep)"
  using assms(2)
proof (induction s)
  case Nil
  with assms(1) show ?case by simp
next
  case (Cons c cs)
  show ?case
  proof (cases "prefix sep (c # cs)")
    case True
    then obtain post where p: "c # cs = sep @ post" by (auto simp: prefix_def)
    have "\<not> str_in sep (butlast sep)"
    proof
      assume "str_in sep (butlast sep)"
      then obtain a b where "butlast sep = a @ sep @ b" by (auto simp: str_in_iff)
      then have "length (butlast sep) = length a + length sep + length b" by (metis length_append add.assoc)
      moreover from assms(1) have "length (butlast sep) < length sep" by (cases sep rule: rev_cases) simp_all
      ultimately show False by linarith
    qed
    moreover have "split1 sep (c # cs) = [[], post]"
    proof -
      have "split1 sep (c # cs) = [[], drop (length sep) (c # cs)]" using True by simp
      moreover have "drop (length sep) (c # cs) = post" by (simp only: p append_eq_conv_conj drop_append) simp
      ultimately show ?thesis by simp
    qed
    moreover from p have "c # cs = [] @ sep @ post" by simp
    ultimately show ?thesis by (metis append_Nil)
  next
    case False
    with Cons.prems have "str_in sep cs" by simp
    with Cons.IH obtain pre post where
      s: "split1 sep cs = [pre, post]" and e: "cs = pre @ sep @ post"
      and n: "\<not> str_in sep (pre @ butlast sep)" by blast
    obtain b l where sep: "sep = b @ [l]"
      using assms(1) by (cases sep rule: rev_cases) auto
    have bl: "butlast sep = b" using sep by simp
    have eq: "c # cs = (c # pre @ b) @ ([l] @ post)" using e sep by simp
    have "\<not> str_in sep ((c # pre) @ butlast sep)"
    proof
      assume "str_in sep ((c # pre) @ butlast sep)"
      with n have "prefix sep (c # pre @ b)" by (simp add: bl)
      then have "prefix sep ((c # pre @ b) @ ([l] @ post))"
        by (rule prefix_prefix)
      then have "prefix sep (c # cs)" unfolding eq .
      with False show False by simp
    qed
    with False s e show ?thesis by simp
  qed
qed


lemma strip_id:
  assumes "s \<noteq> []" and "\<not> isspace (hd s)" and "\<not> isspace (last s)"
  shows "strip s = s"
proof -
  have a: "dropWhile isspace s = s" using assms(1,2) by (cases s) simp_all
  from assms(1) obtain xs x where "s = xs @ [x]" by (cases s rule: rev_cases) auto
  with assms(3) have b: "dropWhile isspace (rev s) = rev s" by simp
  show ?thesis by (simp add: strip_def a b)
qed


section \<open>Literal values\<close>

text \<open>
  The code points of the literals of the program, for evaluation by rewriting.
\<close>

lemma ch_values:
  "ch CHR ''{'' = 123" "ch CHR ''}'' = 125" "ch CHR ''['' = 91" "ch CHR '']'' = 93"
  "ch CHR '':'' = 58" "ch CHR '','' = 44" "ch CHR ''-'' = 45" "ch CHR ''+'' = 43"
  "ch CHR ''.'' = 46" "ch CHR ''0'' = 48" "ch CHR ''1'' = 49" "ch CHR ''9'' = 57"
  "ch CHR ''e'' = 101" "ch CHR ''E'' = 69" "ch CHR ''u'' = 117" "ch CHR ''/'' = 47"
  "ch CHR ''b'' = 98" "ch CHR ''f'' = 102" "ch CHR ''n'' = 110" "ch CHR ''r'' = 114"
  "ch CHR ''t'' = 116"
  by (simp_all add: ch_def)

lemma marker_values:
  "ACTION_START = [91, 65, 67, 84, 73, 79, 78, 95, 83, 84, 65, 82, 84, 93]"
  "ACTION_END = [91, 65, 67, 84, 73, 79, 78, 95, 69, 78, 68, 93]"
  by (simp_all add: ACTION_START_def ACTION_END_def lit_def ch_def)

lemma key_values:
  "lit ''tool'' = [116, 111, 111, 108]" "lit ''args'' = [97, 114, 103, 115]"
  "lit ''a'' = [97]" "lit ''b'' = [98]"
  "lit ''add_numbers'' = [97, 100, 100, 95, 110, 117, 109, 98, 101, 114, 115]"
  "lit ''null'' = [110, 117, 108, 108]" "lit ''true'' = [116, 114, 117, 101]"
  "lit ''false'' = [102, 97, 108, 115, 101]" "lit ''NaN'' = [78, 97, 78]"
  "lit ''Infinity'' = [73, 110, 102, 105, 110, 105, 116, 121]"
  "lit ''-Infinity'' = [45, 73, 110, 102, 105, 110, 105, 116, 121]"
  by (simp_all add: lit_def ch_def)

lemma final_answer_value: "lit ''Final Answer:'' = [70, 105, 110, 97, 108, 32, 65, 110, 115, 119, 101, 114, 58]"
  by (simp add: lit_def ch_def)

lemma example_payload_value:
  "example_payload = [123, 34, 116, 111, 111, 108, 34, 58, 32, 34, 97, 100, 100, 95, 110, 117,
   109, 98, 101, 114, 115, 34, 44, 32, 34, 97, 114, 103, 115, 34, 58, 32,
   123, 34, 97, 34, 58, 32, 49, 50, 51, 44, 32, 34, 98, 34, 58, 32, 52, 53,
   54, 125, 125]"
  by (simp add: example_payload_def lit_def ch_def)

lemma missing_argument_payload_value:
  "missing_argument_payload =
   [123, 34, 116, 111, 111, 108, 34, 58, 32, 34, 97, 100, 100, 95, 110, 117, 109, 98,
   101, 114, 115, 34, 44, 32, 34, 97, 114, 103, 115, 34, 58, 32, 123, 34, 97, 34, 58, 32,
   49, 125, 125]"
  by (simp add: missing_argument_payload_def lit_def ch_def)

lemma unregistered_payload_value:
  "unregistered_payload =
   [123, 34, 116, 111, 111, 108, 34, 58, 32, 34, 109, 117, 108, 116, 105, 112, 108, 121,
   34, 44, 32, 34, 97, 114, 103, 115, 34, 58, 32, 123, 34, 97, 34, 58, 32, 50, 44, 32,
   34, 98, 34, 58, 32, 51, 125, 125]"
  by (simp add: unregistered_payload_def lit_def ch_def)


lemmas search_eval = marker_values match_at_def closes_def ch_values isspace_def

lemmas json_eval =
  json_loads_def parse_value.simps parse_elems.simps parse_members.simps skip_ws_def json_ws_def
  emit_def scan_constant_def match_number_def scan_integer_def scan_frac_def scan_exp_def
  parse_int_def int_of_digits_def is_digit_def escape_char_def hex_val_def ch_values key_values
  Let_def


section \<open>Properties of the pattern\<close>

text \<open>
  A match of the pattern begins with an opening brace and lies in a region between the
  two markers.
\<close>

lemma lazy_body_None_conv: "lazy_body s = Some g \<Longrightarrow> g \<noteq> []"
  by (induction s arbitrary: g) (auto split: if_splits)



lemma match_at_marker: "match_at s = Some g \<Longrightarrow> prefix ACTION_START s"
  by (auto simp: match_at_def split: if_splits)

lemma re_search_marker: "re_search s = Some g \<Longrightarrow> str_in ACTION_START s"
  by (induction s) (auto split: option.splits dest: match_at_marker)

lemma no_marker_no_match: "\<not> str_in ACTION_START s \<Longrightarrow> re_search s = None"
  using re_search_marker by (cases "re_search s") auto

lemma lazy_body_region:
  "lazy_body s = Some g \<Longrightarrow> \<exists>mid post. s = mid @ ACTION_END @ post"
proof (induction s arbitrary: g)
  case Nil
  then show ?case by simp
next
  case (Cons c cs)
  show ?case
  proof (cases "c = ch CHR ''}'' \<and> closes cs")
    case True
    then obtain post where "dropWhile isspace cs = ACTION_END @ post"
      by (auto simp: closes_def prefix_def)
    then have "cs = takeWhile isspace cs @ ACTION_END @ post"
      by (metis takeWhile_dropWhile_id)
    then have "c # cs = (c # takeWhile isspace cs) @ ACTION_END @ post" by simp
    then show ?thesis by blast
  next
    case False
    with Cons.prems obtain g' where "lazy_body cs = Some g'" by auto
    from Cons.IH [OF this] obtain mid post where "cs = mid @ ACTION_END @ post" by blast
    then have "c # cs = (c # mid) @ ACTION_END @ post" by simp
    then show ?thesis by blast
  qed
qed

lemma match_at_region:
  assumes "match_at s = Some g"
  shows "\<exists>mid post. s = ACTION_START @ mid @ ACTION_END @ post"
proof -
  from assms have p: "prefix ACTION_START s" by (rule match_at_marker)
  then obtain r where s: "s = ACTION_START @ r" by (auto simp: prefix_def)
  from assms p obtain c cs g' where d: "dropWhile isspace r = c # cs" and l: "lazy_body cs = Some g'"
    by (auto simp: match_at_def s split: list.splits if_splits)
  from lazy_body_region [OF l] obtain mid post where cs: "cs = mid @ ACTION_END @ post" by blast
  have "r = takeWhile isspace r @ dropWhile isspace r" by simp
  then have "r = (takeWhile isspace r @ c # mid) @ ACTION_END @ post"
    unfolding d cs by simp
  with s show ?thesis by blast
qed

lemma re_search_region:
  "re_search s = Some g \<Longrightarrow> \<exists>pre mid post. s = pre @ ACTION_START @ mid @ ACTION_END @ post"
proof (induction s)
  case Nil
  then show ?case by simp
next
  case (Cons c cs)
  show ?case
  proof (cases "match_at (c # cs)")
    case (Some a)
    from match_at_region [OF Some] obtain mid post
      where "c # cs = [] @ ACTION_START @ mid @ ACTION_END @ post" by auto
    then show ?thesis by blast
  next
    case None
    with Cons.prems have "re_search cs = Some g" by simp
    from Cons.IH [OF this] obtain pre mid post
      where "cs = pre @ ACTION_START @ mid @ ACTION_END @ post" by blast
    then have "c # cs = (c # pre) @ ACTION_START @ mid @ ACTION_END @ post" by simp
    then show ?thesis by blast
  qed
qed

lemma no_opening_no_region:
  "\<not> str_in ACTION_START s \<Longrightarrow>
   \<not> (\<exists>pre mid post. s = pre @ ACTION_START @ mid @ ACTION_END @ post)"
  by (auto simp: str_in_iff)

section \<open>Properties of the decoder\<close>

text \<open>
  Every value the decoder reads consumes text, so the length tests in the two loops never
  fail. A document that begins with an opening brace decodes to an object or not at all,
  and every error of the decoder is a \<^verbatim>\<open>JSONDecodeError\<close>.
\<close>

lemma scan_constant_shorter: "scan_constant rt s = Some (v, r) \<Longrightarrow> length r < length s"
  by (auto simp: scan_constant_def key_values prefix_def split: if_splits)

lemma scan_integer_shorter: "scan_integer s = Some (i, r) \<Longrightarrow> length r < length s"
  by (cases s)
     (auto simp: scan_integer_def Let_def less_Suc_eq_le length_dropWhile_le
        intro: le_trans [OF length_dropWhile_le]
        split: list.splits if_splits)

lemma scan_frac_shorter: "scan_frac s = (f, r) \<Longrightarrow> length r \<le> length s"
  by (auto simp: scan_frac_def le_trans [OF length_dropWhile_le] le_SucI length_dropWhile_le
        split: list.splits if_splits)

lemma scan_exp_shorter: "scan_exp s = (f, r) \<Longrightarrow> length r \<le> length s"
  by (auto simp: scan_exp_def Let_def le_SucI intro: le_trans [OF length_dropWhile_le]
        split: list.splits if_splits)

lemma match_number_shorter: "match_number rt s = Some (v, r) \<Longrightarrow> length r < length s"
  by (auto simp: match_number_def Let_def split: option.splits prod.splits if_splits
        dest!: scan_integer_shorter scan_frac_shorter scan_exp_shorter)

lemma skip_ws_Cons: "skip_ws x = a # y \<Longrightarrow> length y < length x"
  using length_skip_ws [of x] by simp

lemma parse_value_shorter:
  "parse_value rt s = Some (v, r) \<Longrightarrow> length r < length s"
  "parse_elems rt acc1 s1 = Some (v1, r1) \<Longrightarrow> length r1 < length s1"
  "parse_members rt acc2 s2 = Some (v2, r2) \<Longrightarrow> length r2 < length s2"
proof (induction rt s and rt acc1 s1 and rt acc2 s2 arbitrary: v r and v1 r1 and v2 r2
         rule: parse_value_parse_elems_parse_members.induct)
  case (1 rt s)
  from "1.prems" show ?case
    apply (subst (asm) parse_value.simps)
    apply (insert "1.IH")
    apply (auto split: list.splits if_splits option.splits
             dest: scanstring_shorter scan_constant_shorter match_number_shorter
             dest!: skip_ws_Cons)
     apply (metis less_Suc_eq_le le_less_trans less_SucI)+
    done
next
  case (2 rt acc s)
  from "2.prems" obtain v r d ds where pv: "parse_value rt s = Some (v, r)"
    and sk: "skip_ws r = d # ds"
    and alt: "(d = ch CHR '']'' \<and> r1 = ds) \<or>
              (d \<noteq> ch CHR '']'' \<and> d = ch CHR '','' \<and> length ds < length s
               \<and> parse_elems rt (acc @ [v]) (skip_ws ds) = Some (v1, r1))"
    by (subst (asm) parse_elems.simps)
       (auto split: list.splits if_splits option.splits prod.splits)
  from "2.IH"(1) [OF pv] have a: "length r < length s" .
  from skip_ws_Cons [OF sk] have b: "length ds < length r" .
  from alt show ?case
  proof
    assume "d = ch CHR '']'' \<and> r1 = ds"
    with a b show ?thesis by simp
  next
    assume c: "d \<noteq> ch CHR '']'' \<and> d = ch CHR '','' \<and> length ds < length s
               \<and> parse_elems rt (acc @ [v]) (skip_ws ds) = Some (v1, r1)"
    then have d: "d = ch CHR '','' \<and> length ds < length s" by simp
    from c have "d \<noteq> ch CHR '']''" by simp
    from "2.IH"(2) [OF pv refl sk this d] c have "length r1 < length (skip_ws ds)" by simp
    with length_skip_ws [of ds] a b show ?thesis by simp
  qed
next
  case (3 rt acc s)
  from "3.prems" obtain s0 key r k ra v rb d ds where s: "s = 34 # s0"
    and ss: "scanstring s0 = Some (key, r)" and sk: "skip_ws r = k # ra"
    and k: "k = ch CHR '':''" and pv: "parse_value rt (skip_ws ra) = Some (v, rb)"
    and sk2: "skip_ws rb = d # ds"
    and alt: "(d = ch CHR ''}'' \<and> r2 = ds) \<or>
              (d \<noteq> ch CHR ''}'' \<and> d = ch CHR '','' \<and> length ds < length s
               \<and> parse_members rt (AList.update key v acc) (skip_ws ds) = Some (v2, r2))"
    by (subst (asm) parse_members.simps)
       (auto split: list.splits if_splits option.splits prod.splits)
  have q: "\<not> (34::nat) \<noteq> 34" by simp
  have kk: "\<not> k \<noteq> ch CHR '':''" using k by simp
  from "3.IH"(1) [OF s q ss refl sk kk pv] have a: "length rb < length (skip_ws ra)" .
  from scanstring_shorter [OF ss] have b: "length r < length s0" .
  from skip_ws_Cons [OF sk] have c: "length ra < length r" .
  from skip_ws_Cons [OF sk2] have e: "length ds < length rb" .
  from a b c e length_skip_ws [of ra] s have f: "length ds < length s" by simp
  from alt show ?case
  proof
    assume "d = ch CHR ''}'' \<and> r2 = ds"
    with f show ?thesis by simp
  next
    assume g: "d \<noteq> ch CHR ''}'' \<and> d = ch CHR '','' \<and> length ds < length s
               \<and> parse_members rt (AList.update key v acc) (skip_ws ds) = Some (v2, r2)"
    then have h: "d = ch CHR '','' \<and> length ds < length s" by simp
    from g have i: "d \<noteq> ch CHR ''}''" by simp
    from "3.IH"(2) [OF s q ss refl sk kk pv refl sk2 i h] g
    have "length r2 < length (skip_ws ds)" by simp
    with length_skip_ws [of ds] f show ?thesis by simp
  qed
qed







section \<open>Properties of the model client\<close>


lemma payload_of_request:
  "payload_messages (request_for cfg history system_prompt) = messages history system_prompt"
  by (simp add: request_for_def)

lemma world_unchanged: "w\<lparr>requests := requests w @ [], sleeps := sleeps w @ []\<rparr> = w"
  by simp


lemma retry_loop_sent:
  "retry_loop endpoint req max_retries attempt remaining w = (result, w') \<Longrightarrow>
   \<exists>n\<le>remaining. (0 < remaining \<longrightarrow> 0 < n) \<and> requests w' = requests w @ replicate n req"
proof (induction remaining arbitrary: attempt w)
  case 0
  then show ?case by auto
next
  case (Suc remaining)
  let ?w1 = "w\<lparr>requests := requests w @ [req]\<rparr>"
  show ?case
  proof (cases "retry_loop endpoint req max_retries attempt (Suc remaining) w
                  = retry_loop endpoint req max_retries (Suc attempt) remaining
                      (?w1\<lparr>sleeps := sleeps ?w1 @ [2 ^ attempt]\<rparr>)")
    case True
    with Suc.prems have "retry_loop endpoint req max_retries (Suc attempt) remaining
                      (?w1\<lparr>sleeps := sleeps ?w1 @ [2 ^ attempt]\<rparr>) = (result, w')" by simp
    from Suc.IH [OF this] obtain n where n: "n \<le> remaining"
      and r: "requests w' = (requests w @ [req]) @ replicate n req" by auto
    from r have "requests w' = requests w @ replicate (Suc n) req" by simp
    with n show ?thesis by (metis Suc_le_mono zero_less_Suc)
  next
    case False
    with Suc.prems have "w' = ?w1"
      by (auto simp: Let_def split: attempt.splits sum.splits option.splits if_splits)
    then have "requests w' = requests w @ replicate (Suc 0) req" by simp
    then show ?thesis by (metis Suc_le_mono zero_le zero_less_Suc)
  qed
qed

lemma call_llm_sent:
  assumes "call_llm cfg endpoint history system_prompt max_retries w = (result, w')"
  shows "\<exists>n\<le>nat max_retries.
           requests w' = requests w @ replicate n (request_for cfg history system_prompt)
         \<and> (api_key cfg \<noteq> None \<and> api_key cfg \<noteq> Some [] \<and> 0 < max_retries \<longrightarrow> 0 < n)"
proof (cases "api_key cfg = None \<or> api_key cfg = Some []")
  case True
  with assms have "w' = w" by (auto simp: call_llm_def)
  then have "requests w' = requests w @ replicate 0 (request_for cfg history system_prompt)" by simp
  with True show ?thesis by blast
next
  case False
  with assms have "retry_loop endpoint (request_for cfg history system_prompt) max_retries 0
                     (nat max_retries) w = (result, w')"
    by (simp add: call_llm_def)
  from retry_loop_sent [OF this] show ?thesis by auto
qed

lemma reply_content_chat_reply: "reply_content (chat_reply t) = Inr (strip t)"
  by (simp add: reply_content_def chat_reply_def)

lemma call_llm_replies:
  assumes "api_key cfg = Some k" and "k \<noteq> []"
  shows "call_llm cfg (replies t) history system_prompt default_max_retries w
           = (Inr (strip t), w\<lparr>requests := requests w @ [request_for cfg history system_prompt]\<rparr>)"
proof -
  have n: "nat default_max_retries = Suc 2" by (simp add: default_max_retries_def)
  have r: "retry_loop (replies t) req max_retries attempt (Suc remaining) w
          = (Inr (strip t), w\<lparr>requests := requests w @ [req]\<rparr>)"
    for req max_retries attempt remaining
    by (simp add: replies_def reply_content_chat_reply)
  have "retry_loop (replies t) req default_max_retries 0 (nat default_max_retries) w
          = (Inr (strip t), w\<lparr>requests := requests w @ [req]\<rparr>)" for req
    unfolding n by (rule r)
  with assms show ?thesis by (simp add: call_llm_def)
qed

lemma sample_key: "api_key sample_cfg = Some (lit ''sk-test'')" "lit ''sk-test'' \<noteq> []"
  by (simp_all add: sample_cfg_def lit_def)

lemmas call_llm_sample = call_llm_replies [OF sample_key]

lemma call_llm_sample_text:
  "strip t = t \<Longrightarrow>
   call_llm sample_cfg (replies t) history system_prompt default_max_retries w
     = (Inr t, w\<lparr>requests := requests w @ [request_for sample_cfg history system_prompt]\<rparr>)"
  by (simp add: call_llm_sample)

lemma ok_text: "strip (lit ''ok'') = lit ''ok''"
  by (simp add: strip_def lit_def ch_def isspace_def)

lemma call_llm_ok:
  "call_llm sample_cfg (replies (lit ''ok'') :: unit endpoint) history system_prompt
     default_max_retries fresh
   = (Inr (lit ''ok''), \<lparr>requests = [request_for sample_cfg history system_prompt], sleeps = []\<rparr>)"
  by (simp add: call_llm_sample_text [OF ok_text] fresh_def)


section \<open>Properties of one round\<close>

text \<open>
  The three ways a round ends, and the value of a round by the shape of the model text.
\<close>

lemma agent_steps_Return:
  "loop_body rt cfg endpoint system_prompt history w = (Return text, history', w') \<Longrightarrow>
   agent_steps rt cfg endpoint system_prompt (Suc n) history w = (Inr text, history', w')"
  by simp

lemma agent_steps_Continue:
  "loop_body rt cfg endpoint system_prompt history w = (Continue, history', w') \<Longrightarrow>
   agent_steps rt cfg endpoint system_prompt (Suc n) history w
     = agent_steps rt cfg endpoint system_prompt n history' w'"
  by simp

lemma agent_steps_Raise:
  "loop_body rt cfg endpoint system_prompt history w = (Raise e, history', w') \<Longrightarrow>
   agent_steps rt cfg endpoint system_prompt (Suc n) history w = (Inl e, history', w')"
  by simp


lemma loop_body_ambiguous:
  assumes "call_llm cfg endpoint history system_prompt default_max_retries w = (Inr llm_response, w')"
    and "\<not> str_in (lit ''Final Answer:'') llm_response"
    and "re_search llm_response = None"
  shows "loop_body rt cfg endpoint system_prompt history w = (Return failed_text, history, w')"
  using assms by (simp add: loop_body_def)

lemma loop_body_action:
  assumes "call_llm cfg endpoint history system_prompt default_max_retries w = (Inr llm_response, w')"
    and "\<not> str_in (lit ''Final Answer:'') llm_response"
    and "re_search llm_response = Some action_json_str"
  shows "loop_body rt cfg endpoint system_prompt history w =
     (case execute_action rt action_json_str of
        Inr observation_result \<Rightarrow>
          (Continue,
           history @ [\<lparr>role = lit ''assistant'', content = llm_response\<rparr>,
             \<lparr>role = lit ''tool'',
              content = lit ''Observation: '' @ py_str rt observation_result\<rparr>], w')
      | Inl e \<Rightarrow>
          (case caught_in_loop e of
             Some m \<Rightarrow>
               (Continue,
                history @ [\<lparr>role = lit ''assistant'', content = llm_response\<rparr>,
                  \<lparr>role = lit ''tool'',
                   content = lit ''Observation: '' @ lit ''Tool Execution Error: '' @ m\<rparr>], w')
           | None \<Rightarrow> (Raise e, history @ [\<lparr>role = lit ''assistant'', content = llm_response\<rparr>], w')))"
  using assms by (simp add: loop_body_def Let_def split: sum.splits option.splits)


lemma loop_body_requests:
  assumes "loop_body rt cfg endpoint system_prompt history w = (outcome, history', w')"
  shows "length (requests w') \<le> length (requests w) + nat default_max_retries"
proof -
  obtain result w1 where c: "call_llm cfg endpoint history system_prompt default_max_retries w
                               = (result, w1)"
    by (cases "call_llm cfg endpoint history system_prompt default_max_retries w") auto
  from call_llm_sent [OF c] have "length (requests w1) \<le> length (requests w) + nat default_max_retries"
    by auto
  moreover from assms c have "w' = w1"
    by (auto simp: loop_body_def Let_def split: sum.splits if_splits list.splits option.splits)
  ultimately show ?thesis by simp
qed

lemma agent_steps_requests:
  "agent_steps rt cfg endpoint system_prompt n history w = (result, history', w') \<Longrightarrow>
   length (requests w') \<le> length (requests w) + n * nat default_max_retries"
proof (induction n arbitrary: history w)
  case 0
  then show ?case by simp
next
  case (Suc n)
  obtain outcome h1 w1 where b: "loop_body rt cfg endpoint system_prompt history w = (outcome, h1, w1)"
    by (cases "loop_body rt cfg endpoint system_prompt history w") auto
  from loop_body_requests [OF b]
  have l: "length (requests w1) \<le> length (requests w) + nat default_max_retries" .
  show ?case
  proof (cases outcome)
    case Continue
    with Suc.prems b have "agent_steps rt cfg endpoint system_prompt n h1 w1 = (result, history', w')"
      by simp
    from Suc.IH [OF this] l show ?thesis by simp
  next
    case (Return x)
    with Suc.prems b have "w' = w1" by simp
    with l show ?thesis by simp
  next
    case (Raise x)
    with Suc.prems b have "w' = w1" by simp
    with l show ?thesis by simp
  qed
qed

lemma run_agent_loop_requests:
  "run_agent_loop rt cfg endpoint initial_user_prompt system_prompt max_steps w
     = (result, history', w') \<Longrightarrow>
   length (requests w') \<le> length (requests w) + nat max_steps * nat default_max_retries"
  unfolding run_agent_loop_def by (rule agent_steps_requests)

section \<open>The model texts of the instances\<close>

text \<open>
  Where the pattern matches in the texts of the instances, what their actions decode to
  and what executing them gives.
\<close>

lemma example_search:
  "\<not> str_in (lit ''Final Answer:'') example_response"
  "re_search example_response = Some example_payload"
  "strip example_response = example_response"
  by (simp_all add: example_response_def example_payload_value final_answer_value search_eval strip_def)

lemma missing_argument_search:
  "\<not> str_in (lit ''Final Answer:'') missing_argument_response"
  "re_search missing_argument_response = Some missing_argument_payload"
  "strip missing_argument_response = missing_argument_response"
  by (simp_all add: missing_argument_response_def missing_argument_payload_value final_answer_value
        search_eval strip_def)

lemma unregistered_search:
  "\<not> str_in (lit ''Final Answer:'') unregistered_response"
  "re_search unregistered_response = Some unregistered_payload"
  "strip unregistered_response = unregistered_response"
  by (simp_all add: unregistered_response_def unregistered_payload_value final_answer_value
        search_eval strip_def)


lemma prose_search:
  "\<not> str_in (lit ''Final Answer:'') (lit ''The sum is large.'')"
  "\<not> str_in ACTION_START (lit ''The sum is large.'')"
  "strip (lit ''The sum is large.'') = lit ''The sum is large.''"
  by (simp_all add: final_answer_value marker_values lit_def ch_def strip_def isspace_def)



lemma example_decoded: "json_loads rt example_payload
       = Inr (JObj [(lit ''tool'', JStr (lit ''add_numbers'')),
                    (lit ''args'', JObj [(lit ''a'', JInt 123), (lit ''b'', JInt 456)])])"
  by (simp add: example_payload_value json_eval)

lemma example_executed: "execute_action rt example_payload = Inr (JInt 579)"
  by (simp add: execute_action_def example_decoded tool_lookup_def AVAILABLE_TOOLS_def call_kwargs_def
        add_numbers_def py_add_def key_values)

lemma observation_579: "lit ''Observation: '' @ str_int 579 = lit ''Observation: 579''"
  by (simp add: str_int_def digits.simps lit_def ch_def)

lemma missing_argument_decoded:
  "json_loads rt missing_argument_payload
     = Inr (JObj [(lit ''tool'', JStr (lit ''add_numbers'')), (lit ''args'', JObj [(lit ''a'', JInt 1)])])"
  by (simp add: missing_argument_payload_value json_eval)

lemma unregistered_decoded:
  "json_loads rt unregistered_payload
     = Inr (JObj [(lit ''tool'', JStr (lit ''multiply'')),
                  (lit ''args'', JObj [(lit ''a'', JInt 2), (lit ''b'', JInt 3)])])"
  by (simp add: unregistered_payload_value json_eval lit_def ch_def)


lemma missing_argument_raises: "execute_action rt missing_argument_payload = Inl TypeError"
  by (simp add: execute_action_def missing_argument_decoded tool_lookup_def AVAILABLE_TOOLS_def
        call_kwargs_def add_numbers_def key_values)


lemma multiply_unregistered:
  "map_of [(lit ''tool'', JStr (lit ''multiply'')),
           (lit ''args'', JObj [(lit ''a'', JInt 2), (lit ''b'', JInt 3)])] (lit ''tool'')
     = Some (JStr (lit ''multiply''))"
  "map_of [(lit ''tool'', JStr (lit ''multiply'')),
           (lit ''args'', JObj [(lit ''a'', JInt 2), (lit ''b'', JInt 3)])] (lit ''args'')
     = Some (JObj [(lit ''a'', JInt 2), (lit ''b'', JInt 3)])"
  "lit ''multiply'' \<notin> set (map fst (AVAILABLE_TOOLS :: (ustr \<times> unit callable) list))"
  by (simp_all add: AVAILABLE_TOOLS_def lit_def ch_def)

lemma loop_body_missing_argument:
  assumes "call_llm cfg endpoint history system_prompt default_max_retries w
             = (Inr missing_argument_response, w')"
  shows "loop_body rt cfg endpoint system_prompt history w
           = (Raise TypeError,
              history @ [\<lparr>role = lit ''assistant'', content = missing_argument_response\<rparr>], w')"
  by (simp add: loop_body_action [OF assms missing_argument_search(1,2)] missing_argument_raises)

lemma example_single_step:
  "run_agent_loop sample_rt sample_cfg (replies example_response) (lit ''add'') (lit ''calc'') 1 fresh
   = (Inr max_steps_text,
      [\<lparr>role = lit ''system'', content = lit ''calc''\<rparr>, \<lparr>role = lit ''user'', content = lit ''add''\<rparr>]
        @ [\<lparr>role = lit ''assistant'', content = example_response\<rparr>,
           \<lparr>role = lit ''tool'', content = lit ''Observation: 579''\<rparr>],
      fresh\<lparr>requests := requests fresh @
        [request_for sample_cfg
           [\<lparr>role = lit ''system'', content = lit ''calc''\<rparr>, \<lparr>role = lit ''user'', content = lit ''add''\<rparr>]
           (lit ''calc'')]\<rparr>)"
proof -
  have n: "nat 1 = Suc 0" by simp
  have b: "loop_body sample_rt sample_cfg (replies example_response) (lit ''calc'')
             [\<lparr>role = lit ''system'', content = lit ''calc''\<rparr>, \<lparr>role = lit ''user'', content = lit ''add''\<rparr>]
             fresh
           = (Continue,
              [\<lparr>role = lit ''system'', content = lit ''calc''\<rparr>, \<lparr>role = lit ''user'', content = lit ''add''\<rparr>]
                @ [\<lparr>role = lit ''assistant'', content = example_response\<rparr>,
                   \<lparr>role = lit ''tool'', content = lit ''Observation: 579''\<rparr>],
              fresh\<lparr>requests := requests fresh @
                [request_for sample_cfg
                   [\<lparr>role = lit ''system'', content = lit ''calc''\<rparr>,
                    \<lparr>role = lit ''user'', content = lit ''add''\<rparr>]
                   (lit ''calc'')]\<rparr>)"
    by (simp add: loop_body_action [OF call_llm_sample_text [OF example_search(3)] example_search(1,2)]
          example_executed observation_579)
  show ?thesis
    unfolding run_agent_loop_def n agent_steps_Continue [OF b] by (rule agent_steps.simps(1))
qed

section \<open>Messages\<close>

lemma lits_distinct:
  "lit ''user'' \<noteq> lit ''system''" "lit ''assistant'' \<noteq> lit ''system''" "lit ''tool'' \<noteq> lit ''system''"
  "lit ''tool'' \<noteq> lit ''user''" "lit ''tool'' \<noteq> lit ''assistant''" "lit ''user'' \<noteq> lit ''assistant''"
  "lit ''system'' \<noteq> lit ''user''" "lit ''system'' \<noteq> lit ''assistant''" "lit ''system'' \<noteq> lit ''tool''"
  "lit ''user'' \<noteq> lit ''tool''" "lit ''assistant'' \<noteq> lit ''tool''" "lit ''assistant'' \<noteq> lit ''user''"
  by (simp_all add: lit_def ch_def)

lemma history_entry_eq:
  "history_entry m =
     (if role m \<in> {lit ''user'', lit ''assistant'', lit ''system''} then [m]
      else if role m = lit ''tool'' then [m\<lparr>role := lit ''user''\<rparr>] else [])"
  by (simp add: history_entry_def)

lemma entries_without_system:
  "\<forall>m \<in> set rest. role m \<noteq> lit ''system'' \<Longrightarrow>
   concat (map history_entry rest) =
     map (\<lambda>m. if role m = lit ''tool'' then m\<lparr>role := lit ''user''\<rparr> else m)
       (filter (\<lambda>m. role m \<in> {lit ''user'', lit ''assistant'', lit ''tool''}) rest)"
  by (induction rest) (auto simp: history_entry_eq lits_distinct)

section \<open>The claims\<close>

text \<open>
  Claim C1. For a history whose first entry is its only system message and a non-empty
  system prompt, the message list built from the history starts with the system prompt as
  its one system-role message, holds no tool-role entry, and continues with the user,
  assistant and tool entries of the history in their order, the tool entries with the role
  user and the same content, the others unchanged. A call of the model client keeps the
  requests sent before, every request it sends carries exactly that list, and with a
  configured key and at least one attempt it sends at least one request.
\<close>

theorem outbound_transcript:
  assumes "history = s # rest" and "role s = lit ''system''"
    and "\<forall>m \<in> set rest. role m \<noteq> lit ''system''" and "system_prompt \<noteq> []"
  shows "hd (messages history system_prompt) = \<lparr>role = lit ''system'', content = system_prompt\<rparr>
       \<and> filter (\<lambda>m. role m = lit ''system'') (messages history system_prompt)
           = [\<lparr>role = lit ''system'', content = system_prompt\<rparr>]
       \<and> (\<forall>m \<in> set (messages history system_prompt). role m \<noteq> lit ''tool'')
       \<and> tl (messages history system_prompt)
           = map (\<lambda>m. if role m = lit ''tool'' then m\<lparr>role := lit ''user''\<rparr> else m)
               (filter (\<lambda>m. role m \<in> {lit ''user'', lit ''assistant'', lit ''tool''}) rest)
       \<and> (call_llm cfg endpoint history system_prompt max_retries w = (result, w') \<longrightarrow>
            take (length (requests w)) (requests w') = requests w
          \<and> (\<forall>r \<in> set (drop (length (requests w)) (requests w')).
                payload_messages r = messages history system_prompt)
          \<and> (api_key cfg = Some k \<and> k \<noteq> [] \<and> 0 < max_retries \<longrightarrow>
                drop (length (requests w)) (requests w') \<noteq> []))"
proof -
  let ?tr = "\<lambda>m. if role m = lit ''tool'' then m\<lparr>role := lit ''user''\<rparr> else m"
  let ?known = "\<lambda>m. role m \<in> {lit ''user'', lit ''assistant'', lit ''tool''}"
  let ?sys = "\<lparr>role = lit ''system'', content = system_prompt\<rparr>"
  let ?tail = "map ?tr (filter ?known rest)"
  let ?req = "request_for cfg history system_prompt"
  have eq: "messages history system_prompt = ?sys # ?tail"
    using assms by (simp add: messages_def entries_without_system)
  have nosys: "\<forall>m \<in> set ?tail. role m \<noteq> lit ''system''"
    using assms(3) by (auto simp: lits_distinct)
  have notool: "\<forall>m \<in> set ?tail. role m \<noteq> lit ''tool''"
    by (auto simp: lits_distinct)
  have one: "filter (\<lambda>m. role m = lit ''system'') ?tail = []"
    using nosys by (simp only: filter_empty_conv)
  have c1: "hd (messages history system_prompt) = ?sys"
    by (simp only: eq list.sel)
  have c2: "filter (\<lambda>m. role m = lit ''system'') (messages history system_prompt) = [?sys]"
    unfolding eq by (simp only: filter.simps one msg.select_convs simp_thms if_True)
  have c3: "\<forall>m \<in> set (messages history system_prompt). role m \<noteq> lit ''tool''"
    unfolding eq using notool by (simp only: set_simps ball_simps msg.select_convs lits_distinct not_False_eq_True simp_thms)
  have c4: "tl (messages history system_prompt) = ?tail"
    by (simp only: eq list.sel)
  have c5: "take (length (requests w)) (requests w') = requests w
          \<and> (\<forall>r \<in> set (drop (length (requests w)) (requests w')).
                payload_messages r = messages history system_prompt)
          \<and> (api_key cfg = Some k \<and> k \<noteq> [] \<and> 0 < max_retries \<longrightarrow>
                drop (length (requests w)) (requests w') \<noteq> [])"
    if call: "call_llm cfg endpoint history system_prompt max_retries w = (result, w')"
  proof -
    from call_llm_sent [OF call] obtain n
      where sent: "requests w' = requests w @ replicate n ?req"
        and pos: "api_key cfg \<noteq> None \<and> api_key cfg \<noteq> Some [] \<and> 0 < max_retries \<longrightarrow> 0 < n"
      by blast
    have s1: "take (length (requests w)) (requests w') = requests w" by (simp add: sent)
    have d: "drop (length (requests w)) (requests w') = replicate n ?req" by (simp add: sent)
    have s2: "\<forall>r \<in> set (drop (length (requests w)) (requests w')).
               payload_messages r = messages history system_prompt"
      unfolding d by (simp add: payload_of_request)
    have s3: "api_key cfg = Some k \<and> k \<noteq> [] \<and> 0 < max_retries \<longrightarrow>
                drop (length (requests w)) (requests w') \<noteq> []"
      unfolding d using pos by auto
    from s1 s2 s3 show ?thesis by blast
  qed
  from c1 c2 c3 c4 c5 show ?thesis by blast
qed

theorem outbound_transcript_witness:
  "map payload_messages (requests (snd (call_llm sample_cfg (replies (lit ''ok'') :: unit endpoint)
      [\<lparr>role = lit ''system'', content = lit ''old''\<rparr>, \<lparr>role = lit ''user'', content = lit ''q''\<rparr>,
       \<lparr>role = lit ''assistant'', content = lit ''r''\<rparr>, \<lparr>role = lit ''tool'', content = lit ''o''\<rparr>]
      (lit ''p'') default_max_retries fresh)))
   = [\<lparr>role = lit ''system'', content = lit ''p''\<rparr>, \<lparr>role = lit ''user'', content = lit ''q''\<rparr>,
      \<lparr>role = lit ''assistant'', content = lit ''r''\<rparr>, \<lparr>role = lit ''user'', content = lit ''o''\<rparr>] # []"
proof -
  let ?h = "[\<lparr>role = lit ''system'', content = lit ''old''\<rparr>, \<lparr>role = lit ''user'', content = lit ''q''\<rparr>,
       \<lparr>role = lit ''assistant'', content = lit ''r''\<rparr>, \<lparr>role = lit ''tool'', content = lit ''o''\<rparr>]"
  let ?w = "\<lparr>requests = [request_for sample_cfg ?h (lit ''p'')], sleeps = []\<rparr>"
  have h: "?h = \<lparr>role = lit ''system'', content = lit ''old''\<rparr> #
             [\<lparr>role = lit ''user'', content = lit ''q''\<rparr>,
              \<lparr>role = lit ''assistant'', content = lit ''r''\<rparr>, \<lparr>role = lit ''tool'', content = lit ''o''\<rparr>]"
    by simp
  have r: "role \<lparr>role = lit ''system'', content = lit ''old''\<rparr> = lit ''system''" by simp
  have n: "\<forall>m \<in> set [\<lparr>role = lit ''user'', content = lit ''q''\<rparr>,
              \<lparr>role = lit ''assistant'', content = lit ''r''\<rparr>, \<lparr>role = lit ''tool'', content = lit ''o''\<rparr>].
            role m \<noteq> lit ''system''"
    by (simp add: lits_distinct)
  have p: "lit ''p'' \<noteq> []" by (simp add: lit_def)
  have m: "0 < default_max_retries" by (simp add: default_max_retries_def)
  note t = outbound_transcript [OF h r n p, where cfg = sample_cfg
      and endpoint = "replies (lit ''ok'') :: unit endpoint" and max_retries = default_max_retries
      and w = fresh and result = "Inr (lit ''ok'')" and w' = ?w and k = "lit ''sk-test''"]
  have sent: "drop (length (requests fresh)) (requests ?w) = [request_for sample_cfg ?h (lit ''p'')]"
    by (simp add: fresh_def)
  from t call_llm_ok have "drop (length (requests fresh)) (requests ?w) \<noteq> []
      \<and> (\<forall>r \<in> set (drop (length (requests fresh)) (requests ?w)).
            payload_messages r = messages ?h (lit ''p''))"
    using sample_key m by blast
  then have a: "payload_messages (request_for sample_cfg ?h (lit ''p'')) = messages ?h (lit ''p'')"
    unfolding sent by simp
  from t have b: "hd (messages ?h (lit ''p'')) = \<lparr>role = lit ''system'', content = lit ''p''\<rparr>"
    by blast
  from t have c: "tl (messages ?h (lit ''p''))
      = map (\<lambda>m. if role m = lit ''tool'' then m\<lparr>role := lit ''user''\<rparr> else m)
               (filter (\<lambda>m. role m \<in> {lit ''user'', lit ''assistant'', lit ''tool''})
                  [\<lparr>role = lit ''user'', content = lit ''q''\<rparr>,
              \<lparr>role = lit ''assistant'', content = lit ''r''\<rparr>, \<lparr>role = lit ''tool'', content = lit ''o''\<rparr>])"
    by blast
  from t have "filter (\<lambda>m. role m = lit ''system'') (messages ?h (lit ''p''))
                 = [\<lparr>role = lit ''system'', content = lit ''p''\<rparr>]" by blast
  then have "filter (\<lambda>m. role m = lit ''system'') (messages ?h (lit ''p'')) \<noteq> []" by simp
  then have ne: "messages ?h (lit ''p'') \<noteq> []" by auto
  have "messages ?h (lit ''p'') = hd (messages ?h (lit ''p'')) # tl (messages ?h (lit ''p''))"
    using ne by simp
  also have "\<dots> = [\<lparr>role = lit ''system'', content = lit ''p''\<rparr>, \<lparr>role = lit ''user'', content = lit ''q''\<rparr>,
       \<lparr>role = lit ''assistant'', content = lit ''r''\<rparr>, \<lparr>role = lit ''user'', content = lit ''o''\<rparr>]"
    unfolding b c by (simp add: lits_distinct)
  finally have v: "messages ?h (lit ''p'') = [\<lparr>role = lit ''system'', content = lit ''p''\<rparr>, \<lparr>role = lit ''user'', content = lit ''q''\<rparr>,
       \<lparr>role = lit ''assistant'', content = lit ''r''\<rparr>, \<lparr>role = lit ''user'', content = lit ''o''\<rparr>]" .
  show ?thesis by (simp add: call_llm_ok a v)
qed






text \<open>
  Claim C4. With a key configured, a model text whose action calls \<^verbatim>\<open>add_numbers\<close> with
  the argument \<^verbatim>\<open>a\<close> alone makes the call of the tool raise \<^verbatim>\<open>TypeError\<close>, which the
  handler of the loop does not list: the exception leaves \<^verbatim>\<open>run_agent_loop\<close> after the
  assistant message has been appended, and no observation is recorded.
\<close>

theorem missing_argument_escapes:
  "run_agent_loop sample_rt sample_cfg (replies missing_argument_response)
     (lit ''add'') (lit ''calc'') default_max_steps fresh
   = (Inl TypeError,
      [\<lparr>role = lit ''system'', content = lit ''calc''\<rparr>, \<lparr>role = lit ''user'', content = lit ''add''\<rparr>]
        @ [\<lparr>role = lit ''assistant'', content = missing_argument_response\<rparr>],
      fresh\<lparr>requests := requests fresh @
        [request_for sample_cfg
           [\<lparr>role = lit ''system'', content = lit ''calc''\<rparr>, \<lparr>role = lit ''user'', content = lit ''add''\<rparr>]
           (lit ''calc'')]\<rparr>)"
proof -
  have n: "nat default_max_steps = Suc 4" by (simp add: default_max_steps_def)
  show ?thesis
    unfolding run_agent_loop_def n
    by (rule agent_steps_Raise
          [OF loop_body_missing_argument [OF call_llm_sample_text [OF missing_argument_search(3)]]])
qed

text \<open>
  Claim C5. With a budget of one step and a model that asks for a tool in every answer,
  here \<^verbatim>\<open>add_numbers\<close> with the argument \<^verbatim>\<open>a\<close> alone, the run does not end with the
  text for an exhausted budget: the \<^verbatim>\<open>TypeError\<close> of the call leaves the loop in its
  first round. (The bounds of the claim hold: \<open>run_agent_loop_requests\<close> above bounds the
  requests of every run, and \<open>example_single_step\<close> is the run of one step on the action
  of the example.)
\<close>

theorem single_step_not_exhausted:
  "run_agent_loop sample_rt sample_cfg (replies missing_argument_response)
     (lit ''add'') (lit ''calc'') 1 fresh
   = (Inl TypeError,
      [\<lparr>role = lit ''system'', content = lit ''calc''\<rparr>, \<lparr>role = lit ''user'', content = lit ''add''\<rparr>]
        @ [\<lparr>role = lit ''assistant'', content = missing_argument_response\<rparr>],
      fresh\<lparr>requests := requests fresh @
        [request_for sample_cfg
           [\<lparr>role = lit ''system'', content = lit ''calc''\<rparr>, \<lparr>role = lit ''user'', content = lit ''add''\<rparr>]
           (lit ''calc'')]\<rparr>)"
proof -
  have n: "nat 1 = Suc 0" by simp
  show ?thesis
    unfolding run_agent_loop_def n
    by (rule agent_steps_Raise
          [OF loop_body_missing_argument [OF call_llm_sample_text [OF missing_argument_search(3)]]])
qed



text \<open>
  Claim C7. When the located payload decodes to an object with both keys whose tool name
  is a string that is not a name of the registry, the round appends the assistant message
  and the observation \<^verbatim>\<open>Observation: Tool Execution Error: Tool <name> not registered.\<close>,
  and the loop goes on with one step less in its budget.
\<close>

theorem unregistered_tool_observed:
  fixes rt :: "'f pyrt"
  assumes call: "call_llm cfg endpoint history system_prompt default_max_retries w = (Inr llm_response, w')"
    and nofa: "\<not> str_in (lit ''Final Answer:'') llm_response"
    and match: "re_search llm_response = Some payload"
    and decoded: "json_loads rt payload = Inr (JObj kv)"
    and tool: "map_of kv (lit ''tool'') = Some (JStr tool_name)"
    and args: "map_of kv (lit ''args'') = Some tool_args"
    and unregistered: "tool_name \<notin> set (map fst (AVAILABLE_TOOLS :: (ustr \<times> 'f callable) list))"
  shows "loop_body rt cfg endpoint system_prompt history w
           = (Continue,
              history @ [\<lparr>role = lit ''assistant'', content = llm_response\<rparr>,
                \<lparr>role = lit ''tool'',
                 content = lit ''Observation: '' @ lit ''Tool Execution Error: ''
                   @ lit ''Tool '' @ tool_name @ lit '' not registered.''\<rparr>], w')
       \<and> agent_steps rt cfg endpoint system_prompt (Suc n) history w
           = agent_steps rt cfg endpoint system_prompt n
               (history @ [\<lparr>role = lit ''assistant'', content = llm_response\<rparr>,
                 \<lparr>role = lit ''tool'',
                  content = lit ''Observation: '' @ lit ''Tool Execution Error: ''
                    @ lit ''Tool '' @ tool_name @ lit '' not registered.''\<rparr>]) w'"
proof -
  from unregistered have l: "tool_lookup (JStr tool_name) = (Inr None :: exn + 'f callable option)"
    by (simp add: tool_lookup_def map_of_eq_None_iff)
  have x: "execute_action rt payload
             = Inl (ValueError (lit ''Tool '' @ tool_name @ lit '' not registered.''))"
    by (simp add: execute_action_def decoded tool args l)
  have b: "loop_body rt cfg endpoint system_prompt history w
           = (Continue,
              history @ [\<lparr>role = lit ''assistant'', content = llm_response\<rparr>,
                \<lparr>role = lit ''tool'',
                 content = lit ''Observation: '' @ lit ''Tool Execution Error: ''
                   @ lit ''Tool '' @ tool_name @ lit '' not registered.''\<rparr>], w')"
    by (simp add: loop_body_action [OF call nofa match] x)
  from b agent_steps_Continue [OF b] show ?thesis by blast
qed

theorem unregistered_tool_observed_witness:
  "loop_body sample_rt sample_cfg (replies unregistered_response) [] [] fresh
           = (Continue,
              [] @ [\<lparr>role = lit ''assistant'', content = unregistered_response\<rparr>,
                \<lparr>role = lit ''tool'',
                 content = lit ''Observation: '' @ lit ''Tool Execution Error: ''
                   @ lit ''Tool '' @ lit ''multiply'' @ lit '' not registered.''\<rparr>],
              fresh\<lparr>requests := requests fresh @ [request_for sample_cfg [] []]\<rparr>)
       \<and> agent_steps sample_rt sample_cfg (replies unregistered_response) [] (Suc 4) [] fresh
           = agent_steps sample_rt sample_cfg (replies unregistered_response) [] 4
               ([] @ [\<lparr>role = lit ''assistant'', content = unregistered_response\<rparr>,
                 \<lparr>role = lit ''tool'',
                  content = lit ''Observation: '' @ lit ''Tool Execution Error: ''
                    @ lit ''Tool '' @ lit ''multiply'' @ lit '' not registered.''\<rparr>])
               (fresh\<lparr>requests := requests fresh @ [request_for sample_cfg [] []]\<rparr>)"
  by (rule unregistered_tool_observed [OF call_llm_sample_text [OF unregistered_search(3)]
        unregistered_search(1,2) unregistered_decoded multiply_unregistered])

text \<open>
  Claim C8. When the text holds neither \<^verbatim>\<open>Final Answer:\<close> nor a region between the two
  markers, the pattern finds nothing, the round returns the failure text with the history
  as it was, and the run ends with that text in the world the one call of the model client
  left: no further step and no further request.
\<close>

theorem ambiguous_output_fails:
  assumes "call_llm cfg endpoint history system_prompt default_max_retries w = (Inr llm_response, w')"
    and "\<not> str_in (lit ''Final Answer:'') llm_response"
    and "\<not> (\<exists>pre mid post. llm_response = pre @ ACTION_START @ mid @ ACTION_END @ post)"
  shows "re_search llm_response = None
       \<and> loop_body rt cfg endpoint system_prompt history w = (Return failed_text, history, w')
       \<and> agent_steps rt cfg endpoint system_prompt (Suc n) history w
           = (Inr failed_text, history, w')"
proof -
  have r: "re_search llm_response = None"
    using assms(3) re_search_region by (cases "re_search llm_response") auto
  have b: "loop_body rt cfg endpoint system_prompt history w = (Return failed_text, history, w')"
    by (rule loop_body_ambiguous [OF assms(1,2) r])
  from r b agent_steps_Return [OF b] show ?thesis by blast
qed

theorem ambiguous_output_fails_witness:
  "re_search (lit ''The sum is large.'') = None
   \<and> loop_body sample_rt sample_cfg (replies (lit ''The sum is large.'')) [] [] fresh
       = (Return failed_text, [], fresh\<lparr>requests := requests fresh @ [request_for sample_cfg [] []]\<rparr>)
   \<and> agent_steps sample_rt sample_cfg (replies (lit ''The sum is large.'')) [] (Suc 4) [] fresh
       = (Inr failed_text, [], fresh\<lparr>requests := requests fresh @ [request_for sample_cfg [] []]\<rparr>)"
  by (rule ambiguous_output_fails [OF call_llm_sample_text [OF prose_search(3)] prose_search(1)
        no_opening_no_region [OF prose_search(2)]])

text \<open>
  Claim C9. On the model text that is the action of the example between the two markers,
  the pattern locates the whole payload, nested braces included, the payload decodes to the
  tool \<^verbatim>\<open>add_numbers\<close> with the arguments \<^verbatim>\<open>a = 123\<close> and \<^verbatim>\<open>b = 456\<close>, executing it
  gives 579, and the round appends the assistant message and the observation
  \<^verbatim>\<open>Observation: 579\<close>.
\<close>

theorem example_action_observed:
  assumes "call_llm cfg endpoint history system_prompt default_max_retries w = (Inr example_response, w')"
  shows "re_search example_response = Some example_payload
       \<and> json_loads rt example_payload
           = Inr (JObj [(lit ''tool'', JStr (lit ''add_numbers'')),
                        (lit ''args'', JObj [(lit ''a'', JInt 123), (lit ''b'', JInt 456)])])
       \<and> execute_action rt example_payload = Inr (JInt 579)
       \<and> loop_body rt cfg endpoint system_prompt history w
           = (Continue,
              history @ [\<lparr>role = lit ''assistant'', content = example_response\<rparr>,
                \<lparr>role = lit ''tool'', content = lit ''Observation: 579''\<rparr>], w')"
proof -
  have "loop_body rt cfg endpoint system_prompt history w
           = (Continue,
              history @ [\<lparr>role = lit ''assistant'', content = example_response\<rparr>,
                \<lparr>role = lit ''tool'', content = lit ''Observation: 579''\<rparr>], w')"
    by (simp add: loop_body_action [OF assms example_search(1,2)] example_executed observation_579)
  with example_search(2) example_decoded example_executed show ?thesis by blast
qed

theorem example_action_observed_witness:
  "re_search example_response = Some example_payload
       \<and> json_loads sample_rt example_payload
           = Inr (JObj [(lit ''tool'', JStr (lit ''add_numbers'')),
                        (lit ''args'', JObj [(lit ''a'', JInt 123), (lit ''b'', JInt 456)])])
       \<and> execute_action sample_rt example_payload = Inr (JInt 579)
       \<and> loop_body sample_rt sample_cfg (replies example_response) [] [] fresh
           = (Continue,
              [] @ [\<lparr>role = lit ''assistant'', content = example_response\<rparr>,
                \<lparr>role = lit ''tool'', content = lit ''Observation: 579''\<rparr>],
              fresh\<lparr>requests := requests fresh @ [request_for sample_cfg [] []]\<rparr>)"
  by (rule example_action_observed [OF call_llm_sample_text [OF example_search(3)]])

text \<open>
  Claim C10 as it is stated does not hold: with an empty system prompt and a history whose
  second entry has the role system, the request that is sent carries that entry, a
  system-role message.
\<close>

theorem later_system_entry_sent:
  "map payload_messages (requests (snd (call_llm sample_cfg (replies (lit ''ok'') :: unit endpoint)
      [\<lparr>role = lit ''user'', content = lit ''a''\<rparr>, \<lparr>role = lit ''system'', content = lit ''b''\<rparr>]
      [] default_max_retries fresh)))
   = [\<lparr>role = lit ''system'', content = lit ''b''\<rparr>] # []"
  by (simp add: call_llm_ok payload_of_request messages_def history_entry_def)

text \<open>
  Claim C10, amended. The first entry of the history never influences the message list,
  the request or the call, whatever its role. The system prompt heads the list exactly
  when it is non-empty. With an empty system prompt the list is the translation of the
  later entries alone: it holds a system-role message only where a later entry has that
  role, and it begins with the second entry of the history when that entry has the role
  user, assistant or system, and with its user-role copy when it has the role tool.
\<close>

theorem first_entry_skipped:
  "messages (first # rest) system_prompt = messages (other # rest) system_prompt
   \<and> request_for cfg (first # rest) system_prompt = request_for cfg (other # rest) system_prompt
   \<and> call_llm cfg endpoint (first # rest) system_prompt max_retries w
       = call_llm cfg endpoint (other # rest) system_prompt max_retries w
   \<and> (system_prompt \<noteq> [] \<longrightarrow>
        messages (first # rest) system_prompt
          = \<lparr>role = lit ''system'', content = system_prompt\<rparr> # concat (map history_entry rest))
   \<and> messages (first # rest) [] = concat (map history_entry rest)
   \<and> ((\<forall>m \<in> set rest. role m \<noteq> lit ''system'') \<longrightarrow>
        (\<forall>m \<in> set (messages (first # rest) []). role m \<noteq> lit ''system''))
   \<and> (role second \<in> {lit ''user'', lit ''assistant'', lit ''system''} \<longrightarrow>
        hd (messages (first # second # others) []) = second)
   \<and> (role second = lit ''tool'' \<longrightarrow>
        hd (messages (first # second # others) []) = second\<lparr>role := lit ''user''\<rparr>)"
proof -
  have a: "messages (first # rest) system_prompt = messages (other # rest) system_prompt"
    by (simp add: messages_def)
  have b: "request_for cfg (first # rest) system_prompt = request_for cfg (other # rest) system_prompt"
    by (simp add: request_for_def a)
  have c: "call_llm cfg endpoint (first # rest) system_prompt max_retries w
       = call_llm cfg endpoint (other # rest) system_prompt max_retries w"
    by (simp add: call_llm_def b)
  have d: "system_prompt \<noteq> [] \<longrightarrow>
        messages (first # rest) system_prompt
          = \<lparr>role = lit ''system'', content = system_prompt\<rparr> # concat (map history_entry rest)"
    by (simp add: messages_def)
  have e: "messages (first # rest) [] = concat (map history_entry rest)"
    by (simp add: messages_def)
  have f: "(\<forall>m \<in> set rest. role m \<noteq> lit ''system'') \<longrightarrow>
        (\<forall>m \<in> set (messages (first # rest) []). role m \<noteq> lit ''system'')"
    unfolding e by (auto simp: history_entry_eq lits_distinct split: if_splits)
  have g: "role second \<in> {lit ''user'', lit ''assistant'', lit ''system''} \<longrightarrow>
        hd (messages (first # second # others) []) = second"
    by (simp add: messages_def history_entry_eq)
  have h: "role second = lit ''tool'' \<longrightarrow>
        hd (messages (first # second # others) []) = second\<lparr>role := lit ''user''\<rparr>"
    by (simp add: messages_def history_entry_eq lits_distinct)
  from a b c d e f g h show ?thesis by blast
qed

theorem first_entry_skipped_witness:
  "messages [\<lparr>role = lit ''assistant'', content = lit ''x''\<rparr>, \<lparr>role = lit ''user'', content = lit ''q''\<rparr>,
             \<lparr>role = lit ''tool'', content = lit ''o''\<rparr>] (lit ''p'')
     = [\<lparr>role = lit ''system'', content = lit ''p''\<rparr>, \<lparr>role = lit ''user'', content = lit ''q''\<rparr>,
        \<lparr>role = lit ''user'', content = lit ''o''\<rparr>]
   \<and> messages [\<lparr>role = lit ''assistant'', content = lit ''x''\<rparr>, \<lparr>role = lit ''user'', content = lit ''q''\<rparr>,
             \<lparr>role = lit ''tool'', content = lit ''o''\<rparr>] []
     = [\<lparr>role = lit ''user'', content = lit ''q''\<rparr>, \<lparr>role = lit ''user'', content = lit ''o''\<rparr>]
   \<and> filter (\<lambda>m. role m = lit ''system'')
        (messages [\<lparr>role = lit ''assistant'', content = lit ''x''\<rparr>,
           \<lparr>role = lit ''user'', content = lit ''q''\<rparr>, \<lparr>role = lit ''tool'', content = lit ''o''\<rparr>] [])
     = []
   \<and> hd (messages [\<lparr>role = lit ''assistant'', content = lit ''x''\<rparr>,
             \<lparr>role = lit ''user'', content = lit ''q''\<rparr>, \<lparr>role = lit ''tool'', content = lit ''o''\<rparr>] [])
     = \<lparr>role = lit ''user'', content = lit ''q''\<rparr>
   \<and> hd (messages [\<lparr>role = lit ''assistant'', content = lit ''x''\<rparr>,
             \<lparr>role = lit ''tool'', content = lit ''o''\<rparr>] [])
     = \<lparr>role = lit ''user'', content = lit ''o''\<rparr>"
proof -
  let ?x = "\<lparr>role = lit ''assistant'', content = lit ''x''\<rparr>"
  let ?q = "\<lparr>role = lit ''user'', content = lit ''q''\<rparr>"
  let ?o = "\<lparr>role = lit ''tool'', content = lit ''o''\<rparr>"
  note t = first_entry_skipped [where first = ?x and other = ?x and rest = "[?q, ?o]"
      and system_prompt = "lit ''p''" and second = ?q and others = "[?o]" and cfg = sample_cfg
      and endpoint = "times_out :: unit endpoint" and max_retries = 3 and w = fresh]
  note u = first_entry_skipped [where first = ?x and other = ?x and rest = "[?o]"
      and system_prompt = "lit ''p''" and second = ?o and others = "[]" and cfg = sample_cfg
      and endpoint = "times_out :: unit endpoint" and max_retries = 3 and w = fresh]
  have p: "lit ''p'' \<noteq> []" by (simp add: lit_def)
  have n: "\<forall>m \<in> set [?q, ?o]. role m \<noteq> lit ''system''" by (simp add: lits_distinct)
  have rq: "role ?q \<in> {lit ''user'', lit ''assistant'', lit ''system''}" by simp
  have ro: "role ?o = lit ''tool''" by simp
  have e: "concat (map history_entry [?q, ?o])
             = [?q, \<lparr>role = lit ''user'', content = lit ''o''\<rparr>]"
    by (simp add: history_entry_def lits_distinct)
  from t p have 1: "messages [?x, ?q, ?o] (lit ''p'')
      = \<lparr>role = lit ''system'', content = lit ''p''\<rparr> # concat (map history_entry [?q, ?o])"
    by blast
  from t have 2: "messages [?x, ?q, ?o] [] = concat (map history_entry [?q, ?o])" by blast
  from t n have "\<forall>m \<in> set (messages [?x, ?q, ?o] []). role m \<noteq> lit ''system''" by blast
  then have 3: "filter (\<lambda>m. role m = lit ''system'') (messages [?x, ?q, ?o] []) = []"
    by (simp only: filter_empty_conv)
  from t rq have 4: "hd (messages [?x, ?q, ?o] []) = ?q" by blast
  from u ro have "hd (messages [?x, ?o] []) = ?o\<lparr>role := lit ''user''\<rparr>" by blast
  then have 5: "hd (messages [?x, ?o] []) = \<lparr>role = lit ''user'', content = lit ''o''\<rparr>" by simp
  from 1 2 3 4 5 show ?thesis unfolding e by blast
qed

end
